theory Spec2Isabelle
  imports Main "HOL-Library.Word" "HOL-Library.Sublist"
begin

section \<open>JavaScript strings\<close>

text \<open>
  A JavaScript string is a sequence of 16-bit code units, and \<^verbatim>\<open>.length\<close> counts code
  units. String literals of the source are written \<open>js ''...''\<close> where they are ASCII;
  the few code units beyond ASCII (accented letters, the warning sign) are written as
  numbers.
\<close>

type_synonym jsstring = "16 word list"

definition js :: "string \<Rightarrow> jsstring" where
  "js s = map of_char s"

text \<open>\<^verbatim>\<open>s.includes(needle)\<close>: the needle occurs in \<open>s\<close> as a contiguous run.\<close>

definition js_includes :: "jsstring \<Rightarrow> jsstring \<Rightarrow> bool" where
  "js_includes s needle = sublist needle s"

text \<open>
  An optional string in a boolean position (\<^verbatim>\<open>if (part.text)\<close>, \<^verbatim>\<open>!responseText\<close>):
  \<^verbatim>\<open>undefined\<close> and the empty string are falsy.
\<close>

definition truthy :: "jsstring option \<Rightarrow> bool" where
  "truthy s = (case s of None \<Rightarrow> False | Some t \<Rightarrow> t \<noteq> [])"

text \<open>An optional string inside a template literal: \<^verbatim>\<open>undefined\<close> prints as its name.\<close>

definition interpolate :: "jsstring option \<Rightarrow> jsstring" where
  "interpolate s = (case s of None \<Rightarrow> js ''undefined'' | Some t \<Rightarrow> t)"

text \<open>
  \<^verbatim>\<open>s.trim()\<close> removes the white space and line terminators of ECMAScript from both
  ends.
\<close>

definition isWhiteSpace :: "16 word \<Rightarrow> bool" where
  "isWhiteSpace c =
     (c \<in> set [0x9, 0xA, 0xB, 0xC, 0xD, 0x20, 0xA0, 0x1680, 0x2028, 0x2029, 0x202F,
               0x205F, 0x3000, 0xFEFF]
      \<or> (0x2000 \<le> c \<and> c \<le> 0x200A))"

definition trim :: "jsstring \<Rightarrow> jsstring" where
  "trim s = rev (dropWhile isWhiteSpace (rev (dropWhile isWhiteSpace s)))"

section \<open>Data model\<close>

text \<open>The \<^verbatim>\<open>Message\<close> interface of the types module; every optional field is an option.\<close>

datatype role = User | Model | System

record groundingLink =
  link_title :: jsstring
  link_url :: jsstring

record Message =
  msg_id :: jsstring
  msg_role :: role
  msg_text :: "jsstring option"
  msg_image :: "jsstring option"
  msg_isError :: "bool option"
  msg_groundingLinks :: "groundingLink list option"

text \<open>An element of \<^verbatim>\<open>images: Array<{ data: string; mimeType: string }>\<close>.\<close>

record image =
  data :: jsstring
  mimeType :: jsstring

text \<open>
  The outbound request of \<^verbatim>\<open>ai.models.generateContent\<close>: a model name and a list of
  contents, each a list of parts; a part is \<^verbatim>\<open>{ inlineData: { mimeType, data } }\<close> or
  \<^verbatim>\<open>{ text }\<close>.
\<close>

datatype requestPart = InlineData jsstring jsstring | TextPart jsstring

record request =
  req_model :: jsstring
  req_contents :: "requestPart list list"

text \<open>
  The response, as far as \<^verbatim>\<open>editImage\<close> reads it. Every field is optional in the
  client library's types, and the code probes each with \<^verbatim>\<open>?.\<close> or a truthiness test.
\<close>

record inlineData =
  inline_mimeType :: "jsstring option"
  inline_data :: "jsstring option"

record part =
  part_inlineData :: "inlineData option"
  part_text :: "jsstring option"

record content =
  parts :: "part list option"

record candidate =
  finishReason :: "jsstring option"
  cand_content :: "content option"

record promptFeedback =
  blockReason :: "jsstring option"

record response =
  candidates :: "candidate list option"
  resp_promptFeedback :: "promptFeedback option"

text \<open>
  A thrown value is represented by the string its \<^verbatim>\<open>toString()\<close> returns, which is all
  the code reads of it. In this part and the next three, thrown values are objects, as
  the errors of the client library and of \<^verbatim>\<open>fetch\<close> are: they are truthy and have a
  \<^verbatim>\<open>toString\<close>. Thrown values of any kind, \<^verbatim>\<open>null\<close> among them, are the subject of the
  part after those. \<^verbatim>\<open>new Error(message)\<close> with a non-empty message prints as
  \<^verbatim>\<open>Error: message\<close>; every message the code constructs is non-empty.
\<close>

type_synonym thrown = jsstring

definition newError :: "jsstring \<Rightarrow> thrown" where
  "newError message = js ''Error: '' @ message"

text \<open>
  What \<^verbatim>\<open>editImage\<close> takes from outside: the built-in \<^verbatim>\<open>toLowerCase\<close> (its Unicode
  tables are no part of the repository, so every theorem holds for any function in its
  place), the remote service behind \<^verbatim>\<open>new GoogleGenAI({ apiKey }).models.generateContent\<close>,
  which answers or throws, and the identifier that \<^verbatim>\<open>crypto.randomUUID()\<close> (in the second
  revision \<^verbatim>\<open>uuid()\<close>) returns for the one message of this invocation.
  \<^verbatim>\<open>crypto.randomUUID\<close> is taken to be available: \<^verbatim>\<open>handleSend\<close> calls it before it calls
  \<^verbatim>\<open>editImage\<close>. The service is a function of the credential and the request; within
  one invocation each credential is used once.
\<close>

record env =
  toLowerCase :: "jsstring \<Rightarrow> jsstring"
  generateContent :: "jsstring \<Rightarrow> request \<Rightarrow> thrown + response"
  randomUUID :: jsstring

text \<open>One entry per request sent: the credential and the payload.\<close>

type_synonym call = "jsstring \<times> request"

section \<open>One credential attempt (the body of the try block)\<close>

text \<open>The engine instruction and the composed prompt.\<close>

definition engineInstruction :: "jsstring \<Rightarrow> jsstring" where
  "engineInstruction engine =
     (let i0 = [];
          i1 = (if engine = js ''HTL-1''
                then js ''MODE: FAST/BASIC. Prioritize speed. Do not add unnecessary details.''
                else i0);
          i2 = (if engine = js ''Qwalc-3''
                then js ''MODE: BALANCED/DETAILED. Enhance lighting and texture.''
                else i1);
          i3 = (if engine = js ''Snapic-gen3''
                then js ''MODE: ULTRA/CREATIVE. Maximum artistic freedom and fidelity.''
                else i2)
      in i3)"

definition fullPrompt :: "jsstring \<Rightarrow> jsstring \<Rightarrow> jsstring" where
  "fullPrompt engine prompt =
     js ''[SYSTEM: You are SMAPic. '' @ engineInstruction engine
       @ js '' DO NOT CONVERSE. JUST EDIT/GENERATE.] '' @ prompt"

text \<open>Images first, then the text prompt.\<close>

definition requestParts :: "image list \<Rightarrow> jsstring \<Rightarrow> requestPart list" where
  "requestParts images fp = map (\<lambda>img. InlineData (mimeType img) (data img)) images @ [TextPart fp]"

definition buildRequest :: "image list \<Rightarrow> jsstring \<Rightarrow> request" where
  "buildRequest images fp =
     \<lparr>req_model = js ''gemini-2.5-flash-image'', req_contents = [requestParts images fp]\<rparr>"

text \<open>
  The loop over the content parts, with its two variables: a later part of a kind
  overwrites what an earlier one stored.
\<close>

definition dataUrl :: "inlineData \<Rightarrow> jsstring" where
  "dataUrl d =
     js ''data:'' @ interpolate (inline_mimeType d) @ js '';base64,'' @ interpolate (inline_data d)"

fun extractParts :: "part list \<Rightarrow> jsstring option \<Rightarrow> jsstring option \<Rightarrow> jsstring option \<times> jsstring option" where
  "extractParts [] newImageBase64 responseText = (newImageBase64, responseText)"
| "extractParts (p # ps) newImageBase64 responseText =
     (case part_inlineData p of
        Some d \<Rightarrow> extractParts ps (Some (dataUrl d)) responseText
      | None \<Rightarrow>
          if truthy (part_text p) then extractParts ps newImageBase64 (part_text p)
          else extractParts ps newImageBase64 responseText)"

text \<open>
  The \<^verbatim>\<open>text\<close> field of the success message: with an image, the text is kept only when
  its length is not zero and under 50.
\<close>

definition successText :: "jsstring option \<Rightarrow> jsstring option \<Rightarrow> jsstring option" where
  "successText newImageBase64 responseText =
     (if truthy newImageBase64
      then (case responseText of
              None \<Rightarrow> None
            | Some t \<Rightarrow> if length t \<noteq> 0 \<and> length t < 50 then Some t else None)
      else responseText)"

text \<open>What the code does with a response once the service has answered.\<close>

definition firstCandidate :: "response \<Rightarrow> candidate option" where
  "firstCandidate r =
     (case candidates r of None \<Rightarrow> None | Some cs \<Rightarrow> (case cs of [] \<Rightarrow> None | c # _ \<Rightarrow> Some c))"

definition contentParts :: "candidate \<Rightarrow> part list option" where
  "contentParts c = (case cand_content c of None \<Rightarrow> None | Some ct \<Rightarrow> parts ct)"

definition inspect :: "env \<Rightarrow> response \<Rightarrow> thrown + Message" where
  "inspect env r =
     (case firstCandidate r of
        None \<Rightarrow>
          (case (case resp_promptFeedback r of None \<Rightarrow> None | Some f \<Rightarrow> blockReason f) of
             Some reason \<Rightarrow>
               if reason \<noteq> [] then Inl (newError (js ''Blocked by safety: '' @ reason))
               else Inl (newError (js ''No candidates returned from model''))
           | None \<Rightarrow> Inl (newError (js ''No candidates returned from model'')))
      | Some c \<Rightarrow>
          if finishReason c = Some (js ''SAFETY'')
          then Inl (newError (js ''Generaci'' @ [0xF3] @ js ''n bloqueada por filtros de seguridad.''))
          else
            (case (case contentParts c of None \<Rightarrow> (None, None) | Some ps \<Rightarrow> extractParts ps None None) of
               (newImageBase64, responseText) \<Rightarrow>
                 if \<not> truthy newImageBase64 \<and> \<not> truthy responseText
                 then Inl (newError (js ''Empty response content parts from model''))
                 else Inr \<lparr>msg_id = randomUUID env, msg_role = Model,
                           msg_text = successText newImageBase64 responseText,
                           msg_image = newImageBase64,
                           msg_isError = None, msg_groundingLinks = None\<rparr>))"

definition attempt :: "env \<Rightarrow> image list \<Rightarrow> jsstring \<Rightarrow> jsstring \<Rightarrow> thrown + Message" where
  "attempt env images fp apiKey =
     (case generateContent env apiKey (buildRequest images fp) of
        Inl error \<Rightarrow> Inl error
      | Inr r \<Rightarrow> inspect env r)"

section \<open>The credential loop and the failure message (src/services/geminiService.ts)\<close>

text \<open>
  The credential pool. The values are secrets of the deployment and are elided here to
  the four characters the code itself logs (\<^verbatim>\<open>apiKey.slice(-4)\<close>). The code depends on
  their number and order only; the last four characters differ from key to key, so the
  elided keys are distinct as the full ones are.
\<close>

definition API_KEYS :: "jsstring list" where
  "API_KEYS = [js ''...TQvQ'', js ''...-VSE'', js ''...svms'']"

text \<open>
  The \<^verbatim>\<open>for\<close> loop over the remaining keys. \<open>lastError\<close> is the variable of the source
  (\<open>None\<close> is \<^verbatim>\<open>null\<close>), \<open>calls\<close> the requests sent so far. \<open>Inr\<close> is the \<^verbatim>\<open>return\<close>
  inside the loop; \<open>Inl\<close> is leaving the loop, by \<^verbatim>\<open>break\<close> or at its end, with the
  last error.
\<close>

fun keyLoop :: "env \<Rightarrow> image list \<Rightarrow> jsstring \<Rightarrow> jsstring list \<Rightarrow> thrown option \<Rightarrow> call list
    \<Rightarrow> (thrown option + Message) \<times> call list" where
  "keyLoop env images fp [] lastError calls = (Inl lastError, calls)"
| "keyLoop env images fp (apiKey # rest) lastError calls =
     (case attempt env images fp apiKey of
        Inr message \<Rightarrow> (Inr message, calls @ [(apiKey, buildRequest images fp)])
      | Inl error \<Rightarrow>
          (let errString = toLowerCase env error in
           if js_includes errString (js ''safety'') \<or> js_includes errString (js ''seguridad'')
              \<or> js_includes errString (js ''blocked'')
           then (Inl (Some error), calls @ [(apiKey, buildRequest images fp)])
           else keyLoop env images fp rest (Some error) (calls @ [(apiKey, buildRequest images fp)])))"

text \<open>The message templates.\<close>

definition safetyMessage :: jsstring where
  "safetyMessage =
     [0x26A0, 0xFE0F]
       @ js '' Bloqueo de Seguridad: La imagen o el prompt infringen nuestras normas de contenido.''"

definition cloudMessage :: jsstring where
  "cloudMessage =
     [0x26A0, 0xFE0F] @ js '' Error de conexi'' @ [0xF3] @ js ''n de los motores en la nube ''
       @ [0x2601, 0xFE0F] @ js ''. '' @ [0xA, 0xA]
       @ js ''Todos los sistemas de respaldo intentaron procesar tu solicitud pero no responden. Por favor intenta m''
       @ [0xE1] @ js ''s tarde.''"

definition engineMessage :: "jsstring \<Rightarrow> jsstring" where
  "engineMessage engine =
     [0x26A0, 0xFE0F] @ js '' El motor '' @ engine @ js '' no pudo procesar esta solicitud espec''
       @ [0xED] @ js ''fica.'' @ [0xA, 0xA] @ js ''Sugerencia: Intenta reformular tu instrucci''
       @ [0xF3] @ js ''n o prueba con otro motor (ej. Qwalc-3).''"

definition criticalMessage :: "jsstring \<Rightarrow> jsstring" where
  "criticalMessage engine =
     [0x274C] @ js '' Error Cr'' @ [0xED] @ js ''tico en el motor '' @ engine @ js ''.''
       @ [0xA, 0xA] @ js ''No pudimos completar la renderizaci'' @ [0xF3] @ js ''n tras m''
       @ [0xFA] @ js ''ltiples intentos.''"

definition userMessage :: "jsstring \<Rightarrow> jsstring \<Rightarrow> jsstring" where
  "userMessage engine errString =
     (if js_includes errString (js ''safety'') \<or> js_includes errString (js ''seguridad'')
         \<or> js_includes errString (js ''blocked'')
      then safetyMessage
      else if js_includes errString (js ''fetch failed'') \<or> js_includes errString (js ''network'')
         \<or> js_includes errString (js ''503'') \<or> js_includes errString (js ''500'')
         \<or> js_includes errString (js ''429'')
      then cloudMessage
      else if js_includes errString (js ''empty response'') \<or> js_includes errString (js ''no candidates'')
      then engineMessage engine
      else criticalMessage engine)"

definition lastErrString :: "env \<Rightarrow> thrown option \<Rightarrow> jsstring" where
  "lastErrString env lastError =
     (case lastError of None \<Rightarrow> js ''unknown error'' | Some error \<Rightarrow> toLowerCase env error)"

definition failureMessage :: "env \<Rightarrow> jsstring \<Rightarrow> thrown option \<Rightarrow> Message" where
  "failureMessage env engine lastError =
     \<lparr>msg_id = randomUUID env, msg_role = Model,
      msg_text = Some (userMessage engine (lastErrString env lastError)),
      msg_image = None, msg_isError = Some True, msg_groundingLinks = None\<rparr>"

text \<open>
  \<^verbatim>\<open>editImage(images, prompt, engine = 'HTL-1')\<close>: the message it resolves to, and the
  requests it sent. An omitted engine is \<open>None\<close>.
\<close>

definition engineOrDefault :: "jsstring option \<Rightarrow> jsstring" where
  "engineOrDefault engine = (case engine of None \<Rightarrow> js ''HTL-1'' | Some e \<Rightarrow> e)"

definition editImage :: "env \<Rightarrow> image list \<Rightarrow> jsstring \<Rightarrow> jsstring option \<Rightarrow> Message \<times> call list" where
  "editImage env images prompt engine =
     (case keyLoop env images (fullPrompt (engineOrDefault engine) prompt) API_KEYS None [] of
        (Inr message, calls) \<Rightarrow> (message, calls)
      | (Inl lastError, calls) \<Rightarrow> (failureMessage env (engineOrDefault engine) lastError, calls))"

section \<open>The second revision of the service (src/App.tsx, lines 746 to 935)\<close>

text \<open>
  The file carries a later revision of the same module after the component. Its try
  block is the one above; it has a fourth key in front, a second \<^verbatim>\<open>break\<close> for client
  errors, and a client-error message. Its definitions carry the suffix \<open>_App\<close>.
\<close>

definition API_KEYS_App :: "jsstring list" where
  "API_KEYS_App = [js ''...C_n4'', js ''...TQvQ'', js ''...-VSE'', js ''...svms'']"

fun keyLoop_App :: "env \<Rightarrow> image list \<Rightarrow> jsstring \<Rightarrow> jsstring list \<Rightarrow> thrown option \<Rightarrow> call list
    \<Rightarrow> (thrown option + Message) \<times> call list" where
  "keyLoop_App env images fp [] lastError calls = (Inl lastError, calls)"
| "keyLoop_App env images fp (apiKey # rest) lastError calls =
     (case attempt env images fp apiKey of
        Inr message \<Rightarrow> (Inr message, calls @ [(apiKey, buildRequest images fp)])
      | Inl error \<Rightarrow>
          (let errString = toLowerCase env error in
           if js_includes errString (js ''safety'') \<or> js_includes errString (js ''seguridad'')
              \<or> js_includes errString (js ''blocked'')
           then (Inl (Some error), calls @ [(apiKey, buildRequest images fp)])
           else if js_includes errString (js ''400'') \<or> js_includes errString (js ''invalid argument'')
           then (Inl (Some error), calls @ [(apiKey, buildRequest images fp)])
           else keyLoop_App env images fp rest (Some error) (calls @ [(apiKey, buildRequest images fp)])))"

definition requestMessage_App :: jsstring where
  "requestMessage_App =
     [0x26A0, 0xFE0F] @ js '' Error de Solicitud: La imagen proporcionada no es v'' @ [0xE1]
       @ js ''lida o el formato no es compatible.''"

definition cloudMessage_App :: jsstring where
  "cloudMessage_App =
     [0x26A0, 0xFE0F] @ js '' Error de conexi'' @ [0xF3] @ js ''n de los motores en la nube ''
       @ [0x2601, 0xFE0F] @ js ''. '' @ [0xA, 0xA]
       @ js ''Todos los sistemas de respaldo intentaron procesar tu solicitud pero est''
       @ [0xE1] @ js ''n saturados. Por favor intenta m'' @ [0xE1] @ js ''s tarde.''"

definition userMessage_App :: "jsstring \<Rightarrow> jsstring \<Rightarrow> jsstring" where
  "userMessage_App engine errString =
     (if js_includes errString (js ''safety'') \<or> js_includes errString (js ''seguridad'')
         \<or> js_includes errString (js ''blocked'')
      then safetyMessage
      else if js_includes errString (js ''400'') \<or> js_includes errString (js ''invalid argument'')
      then requestMessage_App
      else if js_includes errString (js ''fetch failed'') \<or> js_includes errString (js ''network'')
         \<or> js_includes errString (js ''503'') \<or> js_includes errString (js ''500'')
         \<or> js_includes errString (js ''429'')
      then cloudMessage_App
      else if js_includes errString (js ''empty response'') \<or> js_includes errString (js ''no candidates'')
      then engineMessage engine
      else criticalMessage engine)"

definition failureMessage_App :: "env \<Rightarrow> jsstring \<Rightarrow> thrown option \<Rightarrow> Message" where
  "failureMessage_App env engine lastError =
     \<lparr>msg_id = randomUUID env, msg_role = Model,
      msg_text = Some (userMessage_App engine (lastErrString env lastError)),
      msg_image = None, msg_isError = Some True, msg_groundingLinks = None\<rparr>"

definition editImage_App :: "env \<Rightarrow> image list \<Rightarrow> jsstring \<Rightarrow> jsstring option \<Rightarrow> Message \<times> call list" where
  "editImage_App env images prompt engine =
     (case keyLoop_App env images (fullPrompt (engineOrDefault engine) prompt) API_KEYS_App None [] of
        (Inr message, calls) \<Rightarrow> (message, calls)
      | (Inl lastError, calls) \<Rightarrow> (failureMessage_App env (engineOrDefault engine) lastError, calls))"

section \<open>The caller (handleSend in src/App.tsx)\<close>

text \<open>
  The part of \<^verbatim>\<open>handleSend\<close> that decides the call: nothing happens while a request is
  loading or when there is neither text nor attachment; without an attachment the
  request is refused with the image-required message; otherwise \<^verbatim>\<open>editImage\<close> (imported
  from \<^verbatim>\<open>./services/geminiService\<close>) is called with
  \<^verbatim>\<open>userText || "Mejora esta imagen"\<close> and the selected engine.
\<close>

datatype sendOutcome = Ignored | ImageRequired | Sent "Message \<times> call list"

definition handleSend :: "env \<Rightarrow> jsstring \<Rightarrow> image list \<Rightarrow> bool \<Rightarrow> jsstring \<Rightarrow> sendOutcome" where
  "handleSend env input attachments isLoading selectedEngine =
     (if (trim input = [] \<and> attachments = []) \<or> isLoading then Ignored
      else
        (let userText = trim input in
         if attachments = [] then ImageRequired
         else Sent (editImage env attachments
                      (if userText \<noteq> [] then userText else js ''Mejora esta imagen'')
                      (Some selectedEngine))))"

section \<open>Thrown values of any kind\<close>

text \<open>
  The catch clause binds \<^verbatim>\<open>error: any\<close>, and its \<^verbatim>\<open>error.toString().toLowerCase()\<close> stands
  outside every try block. Of a thrown value the code reads two things: whether it is
  truthy (\<^verbatim>\<open>lastError ? ... : "unknown error"\<close> after the loop) and the string that
  \<^verbatim>\<open>toString()\<close> returns. \<^verbatim>\<open>null\<close> and \<^verbatim>\<open>undefined\<close> are falsy and have no \<^verbatim>\<open>toString\<close>: the
  call throws a TypeError (\<open>None\<close> below), as it does for an object without the method.
  An exception in the catch clause or after the loop leaves \<^verbatim>\<open>editImage\<close>, and its promise
  rejects. The definitions of this part follow the source as those above do, with the
  service throwing values of any kind.
\<close>

datatype thrownValue = ThrownValue (isTruthy: bool) (toStringOf: "jsstring option")

text \<open>A truthy value with a rendering: an \<^verbatim>\<open>Error\<close> object, for one.\<close>

definition errorObject :: "thrown \<Rightarrow> thrownValue" where
  "errorObject error = ThrownValue True (Some error)"

type_synonym service = "jsstring \<Rightarrow> request \<Rightarrow> thrownValue + response"

text \<open>How the loop ends, and how the promise of \<^verbatim>\<open>editImage\<close> settles.\<close>

datatype loopEnd = Returns Message | Leaves "thrownValue option" | Throws

datatype settled = Resolves Message | Rejects

text \<open>The try block: the errors that the inspection constructs are \<^verbatim>\<open>Error\<close> objects.\<close>

definition attempt_any :: "env \<Rightarrow> service \<Rightarrow> image list \<Rightarrow> jsstring \<Rightarrow> jsstring \<Rightarrow> thrownValue + Message" where
  "attempt_any env service images fp apiKey =
     (case service apiKey (buildRequest images fp) of
        Inl error \<Rightarrow> Inl error
      | Inr r \<Rightarrow>
          (case inspect env r of
             Inl error \<Rightarrow> Inl (errorObject error)
           | Inr message \<Rightarrow> Inr message))"

text \<open>
  The loop of src/services/geminiService.ts: \<^verbatim>\<open>lastError = error\<close> comes first, then
  \<^verbatim>\<open>error.toString()\<close>, which throws where the value has no rendering.
\<close>

fun keyLoop_any :: "env \<Rightarrow> service \<Rightarrow> image list \<Rightarrow> jsstring \<Rightarrow> jsstring list \<Rightarrow> thrownValue option
    \<Rightarrow> call list \<Rightarrow> loopEnd \<times> call list" where
  "keyLoop_any env service images fp [] lastError calls = (Leaves lastError, calls)"
| "keyLoop_any env service images fp (apiKey # rest) lastError calls =
     (case attempt_any env service images fp apiKey of
        Inr message \<Rightarrow> (Returns message, calls @ [(apiKey, buildRequest images fp)])
      | Inl error \<Rightarrow>
          (case toStringOf error of
             None \<Rightarrow> (Throws, calls @ [(apiKey, buildRequest images fp)])
           | Some rendering \<Rightarrow>
               (let errString = toLowerCase env rendering in
                if js_includes errString (js ''safety'') \<or> js_includes errString (js ''seguridad'')
                   \<or> js_includes errString (js ''blocked'')
                then (Leaves (Some error), calls @ [(apiKey, buildRequest images fp)])
                else keyLoop_any env service images fp rest (Some error)
                       (calls @ [(apiKey, buildRequest images fp)]))))"

text \<open>
  \<^verbatim>\<open>lastError ? lastError.toString().toLowerCase() : "unknown error"\<close>; \<open>None\<close> where the
  expression throws.
\<close>

definition lastErrString_any :: "env \<Rightarrow> thrownValue option \<Rightarrow> jsstring option" where
  "lastErrString_any env lastError =
     (case lastError of
        None \<Rightarrow> Some (js ''unknown error'')
      | Some error \<Rightarrow>
          if isTruthy error
          then (case toStringOf error of
                  None \<Rightarrow> None
                | Some rendering \<Rightarrow> Some (toLowerCase env rendering))
          else Some (js ''unknown error''))"

definition editImage_any :: "env \<Rightarrow> service \<Rightarrow> image list \<Rightarrow> jsstring \<Rightarrow> jsstring option
    \<Rightarrow> settled \<times> call list" where
  "editImage_any env service images prompt engine =
     (case keyLoop_any env service images (fullPrompt (engineOrDefault engine) prompt) API_KEYS None [] of
        (Returns message, calls) \<Rightarrow> (Resolves message, calls)
      | (Throws, calls) \<Rightarrow> (Rejects, calls)
      | (Leaves lastError, calls) \<Rightarrow>
          (case lastErrString_any env lastError of
             None \<Rightarrow> (Rejects, calls)
           | Some errString \<Rightarrow>
               (Resolves
                  \<lparr>msg_id = randomUUID env, msg_role = Model,
                   msg_text = Some (userMessage (engineOrDefault engine) errString),
                   msg_image = None, msg_isError = Some True, msg_groundingLinks = None\<rparr>,
                calls)))"

text \<open>The same for the revision in src/App.tsx, with its second \<^verbatim>\<open>break\<close> and its messages.\<close>

fun keyLoop_App_any :: "env \<Rightarrow> service \<Rightarrow> image list \<Rightarrow> jsstring \<Rightarrow> jsstring list \<Rightarrow> thrownValue option
    \<Rightarrow> call list \<Rightarrow> loopEnd \<times> call list" where
  "keyLoop_App_any env service images fp [] lastError calls = (Leaves lastError, calls)"
| "keyLoop_App_any env service images fp (apiKey # rest) lastError calls =
     (case attempt_any env service images fp apiKey of
        Inr message \<Rightarrow> (Returns message, calls @ [(apiKey, buildRequest images fp)])
      | Inl error \<Rightarrow>
          (case toStringOf error of
             None \<Rightarrow> (Throws, calls @ [(apiKey, buildRequest images fp)])
           | Some rendering \<Rightarrow>
               (let errString = toLowerCase env rendering in
                if js_includes errString (js ''safety'') \<or> js_includes errString (js ''seguridad'')
                   \<or> js_includes errString (js ''blocked'')
                then (Leaves (Some error), calls @ [(apiKey, buildRequest images fp)])
                else if js_includes errString (js ''400'') \<or> js_includes errString (js ''invalid argument'')
                then (Leaves (Some error), calls @ [(apiKey, buildRequest images fp)])
                else keyLoop_App_any env service images fp rest (Some error)
                       (calls @ [(apiKey, buildRequest images fp)]))))"

definition editImage_App_any :: "env \<Rightarrow> service \<Rightarrow> image list \<Rightarrow> jsstring \<Rightarrow> jsstring option
    \<Rightarrow> settled \<times> call list" where
  "editImage_App_any env service images prompt engine =
     (case keyLoop_App_any env service images (fullPrompt (engineOrDefault engine) prompt) API_KEYS_App None [] of
        (Returns message, calls) \<Rightarrow> (Resolves message, calls)
      | (Throws, calls) \<Rightarrow> (Rejects, calls)
      | (Leaves lastError, calls) \<Rightarrow>
          (case lastErrString_any env lastError of
             None \<Rightarrow> (Rejects, calls)
           | Some errString \<Rightarrow>
               (Resolves
                  \<lparr>msg_id = randomUUID env, msg_role = Model,
                   msg_text = Some (userMessage_App (engineOrDefault engine) errString),
                   msg_image = None, msg_isError = Some True, msg_groundingLinks = None\<rparr>,
                calls)))"

text \<open>
  The service of an environment, as a service of this part: what it throws is an error
  object. On it the definitions of this part and those above agree (lemmas
  \<open>editImage_any_serviceOf\<close> and \<open>editImage_App_any_serviceOf\<close> below).
\<close>

definition serviceOf :: "env \<Rightarrow> service" where
  "serviceOf env = (\<lambda>apiKey r. case generateContent env apiKey r of
                                  Inl error \<Rightarrow> Inl (errorObject error)
                                | Inr answered \<Rightarrow> Inr answered)"

section \<open>The specification's vocabulary\<close>

text \<open>
  The error taxonomy of the specification and its classification policy: the classes are
  checked in a fixed order and the first one with an indication in the text wins. The
  indications of each class are the strings the code searches for.
\<close>

datatype errorClass = SafetyPolicy | InvalidRequest | TransientUnavailable | EmptyResponse | Unclassified

definition indications :: "(errorClass \<times> jsstring list) list" where
  "indications =
     [(SafetyPolicy, [js ''safety'', js ''seguridad'', js ''blocked'']),
      (InvalidRequest, [js ''400'', js ''invalid argument'']),
      (TransientUnavailable, [js ''fetch failed'', js ''network'', js ''503'', js ''500'', js ''429'']),
      (EmptyResponse, [js ''empty response'', js ''no candidates''])]"

fun firstMatch :: "jsstring \<Rightarrow> (errorClass \<times> jsstring list) list \<Rightarrow> errorClass" where
  "firstMatch s [] = Unclassified"
| "firstMatch s ((c, needles) # rest) =
     (if list_ex (js_includes s) needles then c else firstMatch s rest)"

text \<open>The five classes of the specification, in its order.\<close>

definition classify :: "jsstring \<Rightarrow> errorClass" where
  "classify errString = firstMatch errString indications"

text \<open>The same policy without the invalid-request class.\<close>

definition classify_service :: "jsstring \<Rightarrow> errorClass" where
  "classify_service errString =
     firstMatch errString (filter (\<lambda>(c, needles). c \<noteq> InvalidRequest) indications)"

text \<open>The class of a thrown value: that of its lower-cased rendering.\<close>

definition errorClassOf :: "env \<Rightarrow> thrown \<Rightarrow> errorClass" where
  "errorClassOf env error = classify (toLowerCase env error)"

text \<open>An attempt that failed, with an error of one of the given classes.\<close>

definition failsIn :: "env \<Rightarrow> errorClass list \<Rightarrow> thrown + Message \<Rightarrow> bool" where
  "failsIn env classes outcome =
     (case outcome of Inl error \<Rightarrow> errorClassOf env error \<in> set classes | Inr message \<Rightarrow> False)"

text \<open>The requests that contacting the given credentials, in order, sends.\<close>

definition callsTo :: "image list \<Rightarrow> jsstring \<Rightarrow> jsstring list \<Rightarrow> call list" where
  "callsTo images fp keys = map (\<lambda>apiKey. (apiKey, buildRequest images fp)) keys"

text \<open>The success message with the given image and text.\<close>

definition resultOf :: "env \<Rightarrow> jsstring option \<Rightarrow> jsstring option \<Rightarrow> Message" where
  "resultOf env img txt =
     \<lparr>msg_id = randomUUID env, msg_role = Model, msg_text = txt, msg_image = img,
      msg_isError = None, msg_groundingLinks = None\<rparr>"

text \<open>The two shapes of a result.\<close>

definition failureShape :: "Message \<Rightarrow> bool" where
  "failureShape m = (msg_isError m = Some True \<and> truthy (msg_text m) \<and> msg_image m = None)"

definition successShape :: "Message \<Rightarrow> bool" where
  "successShape m = (msg_isError m = None \<and> (truthy (msg_image m) \<or> truthy (msg_text m)))"

text \<open>
  The two credential loops differ in the test that leaves the loop only; this is the
  loop with that test as a parameter.
\<close>

fun loopWith :: "(thrown \<Rightarrow> bool) \<Rightarrow> env \<Rightarrow> image list \<Rightarrow> jsstring \<Rightarrow> jsstring list \<Rightarrow> thrown option
    \<Rightarrow> call list \<Rightarrow> (thrown option + Message) \<times> call list" where
  "loopWith halts env images fp [] lastError calls = (Inl lastError, calls)"
| "loopWith halts env images fp (apiKey # rest) lastError calls =
     (case attempt env images fp apiKey of
        Inr message \<Rightarrow> (Inr message, calls @ [(apiKey, buildRequest images fp)])
      | Inl error \<Rightarrow>
          if halts error then (Inl (Some error), calls @ [(apiKey, buildRequest images fp)])
          else loopWith halts env images fp rest (Some error) (calls @ [(apiKey, buildRequest images fp)]))"

text \<open>The same loop over thrown values of any kind; the test reads the rendering.\<close>

fun loopWith_any :: "(jsstring \<Rightarrow> bool) \<Rightarrow> env \<Rightarrow> service \<Rightarrow> image list \<Rightarrow> jsstring \<Rightarrow> jsstring list
    \<Rightarrow> thrownValue option \<Rightarrow> call list \<Rightarrow> loopEnd \<times> call list" where
  "loopWith_any halts env service images fp [] lastError calls = (Leaves lastError, calls)"
| "loopWith_any halts env service images fp (apiKey # rest) lastError calls =
     (case attempt_any env service images fp apiKey of
        Inr message \<Rightarrow> (Returns message, calls @ [(apiKey, buildRequest images fp)])
      | Inl error \<Rightarrow>
          (case toStringOf error of
             None \<Rightarrow> (Throws, calls @ [(apiKey, buildRequest images fp)])
           | Some rendering \<Rightarrow>
               if halts rendering then (Leaves (Some error), calls @ [(apiKey, buildRequest images fp)])
               else loopWith_any halts env service images fp rest (Some error)
                      (calls @ [(apiKey, buildRequest images fp)])))"



text \<open>
  The image parts and the text parts of a response, in content order, as the extraction
  loop tells them apart: a part with inline data is an image part; a part without
  inline data and with a non-empty text is a text part.
\<close>

definition imageParts :: "part list \<Rightarrow> jsstring list" where
  "imageParts ps = map dataUrl (List.map_filter part_inlineData ps)"

definition textParts :: "part list \<Rightarrow> jsstring list" where
  "textParts ps =
     List.map_filter
       (\<lambda>p. if part_inlineData p = None \<and> truthy (part_text p) then part_text p else None) ps"

definition lastOf :: "'a list \<Rightarrow> 'a option" where
  "lastOf xs = (if xs = [] then None else Some (last xs))"

text \<open>The attachments an outbound part list carries, and its texts.\<close>

definition inlineImages :: "requestPart list \<Rightarrow> image list" where
  "inlineImages ps =
     List.map_filter
       (\<lambda>p. case p of InlineData m d \<Rightarrow> Some \<lparr>data = d, mimeType = m\<rparr> | TextPart t \<Rightarrow> None) ps"

definition isText :: "requestPart \<Rightarrow> bool" where
  "isText p = (case p of InlineData m d \<Rightarrow> False | TextPart t \<Rightarrow> True)"

section \<open>Concrete runs\<close>

text \<open>
  Values for running the definitions: a lower-casing of the ASCII letters (what
  \<^verbatim>\<open>toLowerCase\<close> does on ASCII text), a service that answers each credential from a
  table and fails to connect for any other, and some parts and responses.
\<close>

definition lowerASCII :: "jsstring \<Rightarrow> jsstring" where
  "lowerASCII s = map (\<lambda>c. if 0x41 \<le> c \<and> c \<le> 0x5A then c + 0x20 else c) s"

definition scripted :: "(jsstring \<times> (thrown + response)) list \<Rightarrow> env" where
  "scripted table =
     \<lparr>toLowerCase = lowerASCII,
      generateContent =
        (\<lambda>apiKey r. case map_of table apiKey of
                       Some outcome \<Rightarrow> outcome
                     | None \<Rightarrow> Inl (js ''TypeError: fetch failed'')),
      randomUUID = js ''id-1''\<rparr>"

definition imagePart :: "inlineData \<Rightarrow> part" where
  "imagePart d = \<lparr>part_inlineData = Some d, part_text = None\<rparr>"

definition textPart :: "jsstring \<Rightarrow> part" where
  "textPart t = \<lparr>part_inlineData = None, part_text = Some t\<rparr>"

definition answer :: "part list \<Rightarrow> response" where
  "answer ps =
     \<lparr>candidates = Some [\<lparr>finishReason = Some (js ''STOP''),
                          cand_content = Some \<lparr>parts = Some ps\<rparr>\<rparr>],
      resp_promptFeedback = None\<rparr>"

definition stop :: "part list \<Rightarrow> candidate" where
  "stop ps = \<lparr>finishReason = Some (js ''STOP''), cand_content = Some \<lparr>parts = Some ps\<rparr>\<rparr>"

definition blocked :: response where
  "blocked =
     \<lparr>candidates = None,
      resp_promptFeedback = Some \<lparr>blockReason = Some (js ''PROHIBITED_CONTENT'')\<rparr>\<rparr>"

definition badRequest :: thrown where
  "badRequest = js ''ApiError: 400 INVALID_ARGUMENT''"

definition png :: inlineData where
  "png = \<lparr>inline_mimeType = Some (js ''image/png''), inline_data = Some (js ''iVBORw0KGgo='')\<rparr>"

definition sketch :: image where
  "sketch = \<lparr>data = js ''iVBORw0KGgoAAAANSUhEUg=='', mimeType = js ''image/png''\<rparr>"

definition jpeg :: inlineData where
  "jpeg = \<lparr>inline_mimeType = Some (js ''image/jpeg''), inline_data = Some (js ''/9j/4AAQ'')\<rparr>"

definition several :: "part list" where
  "several = [textPart (js ''uno''), imagePart png, imagePart jpeg, textPart (js ''dos''), textPart []]"

definition photo :: image where
  "photo = \<lparr>data = js ''/9j/4AAQSkZJRg=='', mimeType = js ''image/jpeg''\<rparr>"

text \<open>
  Services for the runs below. In \<open>envFirst\<close> the first credential of either pool is
  answered at once. In \<open>envRecover\<close> the credential ending in TQvQ gets a client error
  and the one ending in -VSE an image. In \<open>envBlocked\<close> the credential ending in -VSE
  gets a response without candidates and with a block reason. In \<open>envDown\<close> nothing
  connects.
\<close>

definition envFirst :: env where
  "envFirst = scripted [(js ''...TQvQ'', Inr (answer [imagePart png])),
                        (js ''...C_n4'', Inr (answer [textPart (js ''Listo'')]))]"

definition envRecover :: env where
  "envRecover = scripted [(js ''...TQvQ'', Inl badRequest), (js ''...-VSE'', Inr (answer [imagePart png]))]"

definition envBlocked :: env where
  "envBlocked = scripted [(js ''...-VSE'', Inr blocked)]"

definition envDown :: env where
  "envDown = scripted []"



section \<open>Lemmas\<close>

subsection \<open>Classification\<close>

lemma classify_Safety_iff: "classify s = SafetyPolicy \<longleftrightarrow>
   js_includes s (js ''safety'') \<or> js_includes s (js ''seguridad'') \<or> js_includes s (js ''blocked'')"
  by (simp add: classify_def indications_def)

lemma classify_Invalid_iff: "classify s = InvalidRequest \<longleftrightarrow>
   \<not> (js_includes s (js ''safety'') \<or> js_includes s (js ''seguridad'') \<or> js_includes s (js ''blocked''))
   \<and> (js_includes s (js ''400'') \<or> js_includes s (js ''invalid argument''))"
  by (simp add: classify_def indications_def)

lemma classify_Transient_iff: "classify s = TransientUnavailable \<longleftrightarrow>
   \<not> (js_includes s (js ''safety'') \<or> js_includes s (js ''seguridad'') \<or> js_includes s (js ''blocked''))
   \<and> \<not> (js_includes s (js ''400'') \<or> js_includes s (js ''invalid argument''))
   \<and> (js_includes s (js ''fetch failed'') \<or> js_includes s (js ''network'')
         \<or> js_includes s (js ''503'') \<or> js_includes s (js ''500'')
         \<or> js_includes s (js ''429''))"
  by (simp add: classify_def indications_def)

lemma classify_Empty_iff: "classify s = EmptyResponse \<longleftrightarrow>
   \<not> (js_includes s (js ''safety'') \<or> js_includes s (js ''seguridad'') \<or> js_includes s (js ''blocked''))
   \<and> \<not> (js_includes s (js ''400'') \<or> js_includes s (js ''invalid argument''))
   \<and> \<not> (js_includes s (js ''fetch failed'') \<or> js_includes s (js ''network'')
         \<or> js_includes s (js ''503'') \<or> js_includes s (js ''500'')
         \<or> js_includes s (js ''429''))
   \<and> (js_includes s (js ''empty response'') \<or> js_includes s (js ''no candidates''))"
  by (simp add: classify_def indications_def)

lemma classify_Unclassified_iff: "classify s = Unclassified \<longleftrightarrow>
   \<not> (js_includes s (js ''safety'') \<or> js_includes s (js ''seguridad'') \<or> js_includes s (js ''blocked''))
   \<and> \<not> (js_includes s (js ''400'') \<or> js_includes s (js ''invalid argument''))
   \<and> \<not> (js_includes s (js ''fetch failed'') \<or> js_includes s (js ''network'')
         \<or> js_includes s (js ''503'') \<or> js_includes s (js ''500'')
         \<or> js_includes s (js ''429''))
   \<and> \<not> (js_includes s (js ''empty response'') \<or> js_includes s (js ''no candidates''))"
  by (simp add: classify_def indications_def)

lemma service_Safety_iff: "classify_service s = SafetyPolicy \<longleftrightarrow>
   js_includes s (js ''safety'') \<or> js_includes s (js ''seguridad'') \<or> js_includes s (js ''blocked'')"
  by (simp add: classify_service_def indications_def)

lemma service_Transient_iff: "classify_service s = TransientUnavailable \<longleftrightarrow>
   \<not> (js_includes s (js ''safety'') \<or> js_includes s (js ''seguridad'') \<or> js_includes s (js ''blocked''))
   \<and> (js_includes s (js ''fetch failed'') \<or> js_includes s (js ''network'')
         \<or> js_includes s (js ''503'') \<or> js_includes s (js ''500'')
         \<or> js_includes s (js ''429''))"
  by (simp add: classify_service_def indications_def)

lemma service_Empty_iff: "classify_service s = EmptyResponse \<longleftrightarrow>
   \<not> (js_includes s (js ''safety'') \<or> js_includes s (js ''seguridad'') \<or> js_includes s (js ''blocked''))
   \<and> \<not> (js_includes s (js ''fetch failed'') \<or> js_includes s (js ''network'')
         \<or> js_includes s (js ''503'') \<or> js_includes s (js ''500'')
         \<or> js_includes s (js ''429''))
   \<and> (js_includes s (js ''empty response'') \<or> js_includes s (js ''no candidates''))"
  by (simp add: classify_service_def indications_def)

lemma service_Unclassified_iff: "classify_service s = Unclassified \<longleftrightarrow>
   \<not> (js_includes s (js ''safety'') \<or> js_includes s (js ''seguridad'') \<or> js_includes s (js ''blocked''))
   \<and> \<not> (js_includes s (js ''fetch failed'') \<or> js_includes s (js ''network'')
         \<or> js_includes s (js ''503'') \<or> js_includes s (js ''500'')
         \<or> js_includes s (js ''429''))
   \<and> \<not> (js_includes s (js ''empty response'') \<or> js_includes s (js ''no candidates''))"
  by (simp add: classify_service_def indications_def)

lemma service_never_Invalid: "classify_service s \<noteq> InvalidRequest"
  by (simp add: classify_service_def indications_def)

subsection \<open>The loops\<close>

lemma keyLoop_loopWith:
  "keyLoop env images fp keys le calls =
   loopWith (\<lambda>e. errorClassOf env e = SafetyPolicy) env images fp keys le calls"
  by (induction keys arbitrary: le calls)
     (simp_all add: errorClassOf_def classify_Safety_iff Let_def split: sum.splits)

lemma keyLoop_App_loopWith:
  "keyLoop_App env images fp keys le calls =
   loopWith (\<lambda>e. errorClassOf env e = SafetyPolicy \<or> errorClassOf env e = InvalidRequest)
     env images fp keys le calls"
  by (induction keys arbitrary: le calls)
     (auto simp add: errorClassOf_def classify_Safety_iff classify_Invalid_iff Let_def split: sum.splits)

lemma callsTo_Nil [simp]: "callsTo images fp [] = []"
  by (simp add: callsTo_def)

lemma callsTo_Cons: "callsTo images fp (k # ks) = (k, buildRequest images fp) # callsTo images fp ks"
  by (simp add: callsTo_def)

lemma callsTo_append: "callsTo images fp (ks @ ks') = callsTo images fp ks @ callsTo images fp ks'"
  by (simp add: callsTo_def)

text \<open>The loop passes over a run of credentials whose attempts fail without halting.\<close>

lemma loopWith_passes:
  assumes "\<forall>k\<in>set tried. \<exists>e. attempt env images fp k = Inl e \<and> \<not> halts e"
  shows "\<exists>le'. loopWith halts env images fp (tried @ rest) le calls =
                loopWith halts env images fp rest le' (calls @ callsTo images fp tried)
              \<and> (tried = [] \<longrightarrow> le' = le)
              \<and> (tried \<noteq> [] \<longrightarrow> attempt env images fp (last tried) = Inl (the le') \<and> le' \<noteq> None)"
  using assms
proof (induction tried arbitrary: le calls)
  case Nil
  then show ?case by simp
next
  case (Cons k tried)
  from Cons.prems obtain e where e: "attempt env images fp k = Inl e" "\<not> halts e"
    by auto
  from Cons.prems have rest: "\<forall>k\<in>set tried. \<exists>e. attempt env images fp k = Inl e \<and> \<not> halts e"
    by simp
  from Cons.IH [OF rest, of "Some e" "calls @ [(k, buildRequest images fp)]"]
  obtain le' where le':
    "loopWith halts env images fp (tried @ rest) (Some e) (calls @ [(k, buildRequest images fp)]) =
       loopWith halts env images fp rest le' ((calls @ [(k, buildRequest images fp)]) @ callsTo images fp tried)"
    "tried = [] \<longrightarrow> le' = Some e"
    "tried \<noteq> [] \<longrightarrow> attempt env images fp (last tried) = Inl (the le') \<and> le' \<noteq> None"
    by blast
  show ?case
  proof (intro exI [of _ le'] conjI)
    show "loopWith halts env images fp ((k # tried) @ rest) le calls =
          loopWith halts env images fp rest le' (calls @ callsTo images fp (k # tried))"
      using e le'(1) by (simp add: callsTo_Cons)
    show "k # tried = [] \<longrightarrow> le' = le" by simp
    show "k # tried \<noteq> [] \<longrightarrow> attempt env images fp (last (k # tried)) = Inl (the le') \<and> le' \<noteq> None"
      using e le'(2,3) by (cases "tried = []") auto
  qed
qed

lemma loopWith_halts_at:
  assumes "\<forall>k\<in>set tried. \<exists>e. attempt env images fp k = Inl e \<and> \<not> halts e"
    and "attempt env images fp k = Inl e" and "halts e"
  shows "loopWith halts env images fp (tried @ k # untried) le calls =
         (Inl (Some e), calls @ callsTo images fp (tried @ [k]))"
proof -
  from loopWith_passes [OF assms(1), of "k # untried" le calls]
  obtain le' where "loopWith halts env images fp (tried @ k # untried) le calls =
      loopWith halts env images fp (k # untried) le' (calls @ callsTo images fp tried)"
    by blast
  with assms(2,3) show ?thesis
    by (simp add: callsTo_append callsTo_Cons)
qed

lemma loopWith_succeeds_at:
  assumes "\<forall>k\<in>set tried. \<exists>e. attempt env images fp k = Inl e \<and> \<not> halts e"
    and "attempt env images fp k = Inr m"
  shows "loopWith halts env images fp (tried @ k # untried) le calls =
         (Inr m, calls @ callsTo images fp (tried @ [k]))"
proof -
  from loopWith_passes [OF assms(1), of "k # untried" le calls]
  obtain le' where "loopWith halts env images fp (tried @ k # untried) le calls =
      loopWith halts env images fp (k # untried) le' (calls @ callsTo images fp tried)"
    by blast
  with assms(2) show ?thesis
    by (simp add: callsTo_append callsTo_Cons)
qed

lemma loopWith_exhausts:
  assumes "\<forall>k\<in>set keys. \<exists>e. attempt env images fp k = Inl e \<and> \<not> halts e" and "keys \<noteq> []"
  shows "\<exists>e. attempt env images fp (last keys) = Inl e
            \<and> loopWith halts env images fp keys le calls = (Inl (Some e), calls @ callsTo images fp keys)"
proof -
  from loopWith_passes [OF assms(1), of "[]" le calls] assms(2)
  obtain le' where le': "loopWith halts env images fp keys le calls = (Inl le', calls @ callsTo images fp keys)"
      "attempt env images fp (last keys) = Inl (the le')" "le' \<noteq> None"
    by auto
  then show ?thesis by (cases le') auto
qed

text \<open>What the loop can return, whatever the service does.\<close>

lemma loopWith_result:
  "\<exists>n. n \<le> length keys \<and> (keys \<noteq> [] \<longrightarrow> 0 < n)
      \<and> snd (loopWith halts env images fp keys le calls) = calls @ callsTo images fp (take n keys)
      \<and> (case fst (loopWith halts env images fp keys le calls) of
           Inr m \<Rightarrow> n \<noteq> 0 \<and> attempt env images fp (keys ! (n - 1)) = Inr m
         | Inl le' \<Rightarrow> if n = 0 then le' = le
                     else \<exists>e. le' = Some e \<and> attempt env images fp (keys ! (n - 1)) = Inl e
                              \<and> (n < length keys \<longrightarrow> halts e))"
proof (induction keys arbitrary: le calls)
  case Nil
  then show ?case by simp
next
  case (Cons k keys)
  show ?case
  proof (cases "attempt env images fp k")
    case (Inr m)
    then show ?thesis
      by (intro exI [of _ 1]) (simp add: callsTo_Cons)
  next
    case (Inl e)
    show ?thesis
    proof (cases "halts e")
      case True
      with Inl show ?thesis
        by (intro exI [of _ 1]) (simp add: callsTo_Cons)
    next
      case False
      from Cons.IH [of "Some e" "calls @ [(k, buildRequest images fp)]"]
      obtain n where n: "n \<le> length keys" "keys \<noteq> [] \<longrightarrow> 0 < n"
        "snd (loopWith halts env images fp keys (Some e) (calls @ [(k, buildRequest images fp)])) =
           (calls @ [(k, buildRequest images fp)]) @ callsTo images fp (take n keys)"
        "case fst (loopWith halts env images fp keys (Some e) (calls @ [(k, buildRequest images fp)])) of
           Inr m \<Rightarrow> n \<noteq> 0 \<and> attempt env images fp (keys ! (n - 1)) = Inr m
         | Inl le' \<Rightarrow> if n = 0 then le' = Some e
                     else \<exists>e. le' = Some e \<and> attempt env images fp (keys ! (n - 1)) = Inl e
                              \<and> (n < length keys \<longrightarrow> halts e)"
        by blast
      show ?thesis
      proof (intro exI [of _ "Suc n"] conjI)
        show "Suc n \<le> length (k # keys)" using n(1) by simp
        show "k # keys \<noteq> [] \<longrightarrow> 0 < Suc n" by simp
        show "snd (loopWith halts env images fp (k # keys) le calls) =
              calls @ callsTo images fp (take (Suc n) (k # keys))"
          using Inl False n(3) by (simp add: callsTo_Cons)
        show "case fst (loopWith halts env images fp (k # keys) le calls) of
                Inr m \<Rightarrow> Suc n \<noteq> 0 \<and> attempt env images fp ((k # keys) ! (Suc n - 1)) = Inr m
              | Inl le' \<Rightarrow> if Suc n = 0 then le' = le
                     else \<exists>e. le' = Some e \<and> attempt env images fp ((k # keys) ! (Suc n - 1)) = Inl e
                              \<and> (Suc n < length (k # keys) \<longrightarrow> halts e)"
          using Inl False n(1,2,4) by (cases n) (auto split: sum.splits)
      qed
    qed
  qed
qed

subsection \<open>The entry points\<close>

lemma failsIn_D: "failsIn env cs out \<Longrightarrow> \<exists>e. out = Inl e \<and> errorClassOf env e \<in> set cs"
  by (cases out) (simp_all add: failsIn_def)

lemma editImage_loopWith:
  "editImage env images prompt engine =
     (case loopWith (\<lambda>e. errorClassOf env e = SafetyPolicy) env images
             (fullPrompt (engineOrDefault engine) prompt) API_KEYS None [] of
        (Inr message, calls) \<Rightarrow> (message, calls)
      | (Inl lastError, calls) \<Rightarrow> (failureMessage env (engineOrDefault engine) lastError, calls))"
  by (simp add: editImage_def keyLoop_loopWith)

lemma editImage_App_loopWith:
  "editImage_App env images prompt engine =
     (case loopWith (\<lambda>e. errorClassOf env e = SafetyPolicy \<or> errorClassOf env e = InvalidRequest)
             env images (fullPrompt (engineOrDefault engine) prompt) API_KEYS_App None [] of
        (Inr message, calls) \<Rightarrow> (message, calls)
      | (Inl lastError, calls) \<Rightarrow> (failureMessage_App env (engineOrDefault engine) lastError, calls))"
  by (simp add: editImage_App_def keyLoop_App_loopWith)

lemma inspect_Inr:
  assumes "inspect env r = Inr m"
  shows "msg_isError m = None \<and> msg_role m = Model \<and> msg_id m = randomUUID env
       \<and> msg_groundingLinks m = None \<and> (truthy (msg_image m) \<or> truthy (msg_text m))"
  using assms
  by (auto simp: inspect_def successText_def split: option.splits if_splits prod.splits)

lemma passes_service:
  assumes "\<forall>k\<in>set tried. failsIn env [InvalidRequest, TransientUnavailable, EmptyResponse, Unclassified] (attempt env images fp k)"
  shows "\<forall>k\<in>set tried. \<exists>e. attempt env images fp k = Inl e \<and> \<not> errorClassOf env e = SafetyPolicy"
proof
  fix k assume "k \<in> set tried"
  with assms have "failsIn env [InvalidRequest, TransientUnavailable, EmptyResponse, Unclassified] (attempt env images fp k)"
    by blast
  from failsIn_D [OF this] show "\<exists>e. attempt env images fp k = Inl e \<and> \<not> errorClassOf env e = SafetyPolicy"
    by auto
qed

lemma passes_App:
  assumes "\<forall>k\<in>set tried. failsIn env [TransientUnavailable, EmptyResponse, Unclassified] (attempt env images fp k)"
  shows "\<forall>k\<in>set tried. \<exists>e. attempt env images fp k = Inl e
           \<and> \<not> (errorClassOf env e = SafetyPolicy \<or> errorClassOf env e = InvalidRequest)"
proof
  fix k assume "k \<in> set tried"
  with assms have "failsIn env [TransientUnavailable, EmptyResponse, Unclassified] (attempt env images fp k)"
    by blast
  from failsIn_D [OF this]
  show "\<exists>e. attempt env images fp k = Inl e
           \<and> \<not> (errorClassOf env e = SafetyPolicy \<or> errorClassOf env e = InvalidRequest)"
    by auto
qed

subsection \<open>Messages\<close>

lemma userMessage_App_classify:
  "userMessage_App engine s =
     (case classify s of
        SafetyPolicy \<Rightarrow> safetyMessage
      | InvalidRequest \<Rightarrow> requestMessage_App
      | TransientUnavailable \<Rightarrow> cloudMessage_App
      | EmptyResponse \<Rightarrow> engineMessage engine
      | Unclassified \<Rightarrow> criticalMessage engine)"
  by (simp add: userMessage_App_def classify_def indications_def)

lemma userMessage_classify_service:
  "userMessage engine s =
     (case classify_service s of
        SafetyPolicy \<Rightarrow> safetyMessage
      | InvalidRequest \<Rightarrow> []
      | TransientUnavailable \<Rightarrow> cloudMessage
      | EmptyResponse \<Rightarrow> engineMessage engine
      | Unclassified \<Rightarrow> criticalMessage engine)"
  by (simp add: userMessage_def classify_service_def indications_def)

lemma userMessage_Transient: "classify s = TransientUnavailable \<Longrightarrow> userMessage engine s = cloudMessage"
  by (simp add: classify_Transient_iff userMessage_def)

lemma userMessage_nonempty: "userMessage engine s \<noteq> []"
  by (simp add: userMessage_def safetyMessage_def cloudMessage_def engineMessage_def criticalMessage_def)

lemma userMessage_App_nonempty: "userMessage_App engine s \<noteq> []"
  by (simp add: userMessage_App_def safetyMessage_def cloudMessage_App_def requestMessage_App_def
        engineMessage_def criticalMessage_def)

lemma failureShape_failureMessage: "failureShape (failureMessage env engine le)"
  by (simp add: failureShape_def failureMessage_def truthy_def userMessage_nonempty)

lemma failureShape_failureMessage_App: "failureShape (failureMessage_App env engine le)"
  by (simp add: failureShape_def failureMessage_App_def truthy_def userMessage_App_nonempty)

lemma attempt_Inr:
  assumes "attempt env images fp k = Inr m"
  shows "successShape m \<and> msg_role m = Model \<and> msg_id m = randomUUID env \<and> msg_groundingLinks m = None"
proof -
  from assms obtain r where "inspect env r = Inr m"
    by (auto simp: attempt_def split: sum.splits)
  from inspect_Inr [OF this] show ?thesis
    by (simp add: successShape_def)
qed

lemma loopWith_cases:
  assumes "keys \<noteq> []"
  shows "\<exists>n. 0 < n \<and> n \<le> length keys
          \<and> ((\<exists>e. attempt env images fp (keys ! (n - 1)) = Inl e
                  \<and> loopWith halts env images fp keys le calls
                      = (Inl (Some e), calls @ callsTo images fp (take n keys)))
             \<or> (\<exists>m. attempt env images fp (keys ! (n - 1)) = Inr m
                  \<and> loopWith halts env images fp keys le calls
                      = (Inr m, calls @ callsTo images fp (take n keys))))"
proof -
  from loopWith_result [of keys halts env images fp le calls] assms
  obtain n where n: "n \<le> length keys" "0 < n"
     "snd (loopWith halts env images fp keys le calls) = calls @ callsTo images fp (take n keys)"
     "case fst (loopWith halts env images fp keys le calls) of
           Inr m \<Rightarrow> n \<noteq> 0 \<and> attempt env images fp (keys ! (n - 1)) = Inr m
         | Inl le' \<Rightarrow> if n = 0 then le' = le
                     else \<exists>e. le' = Some e \<and> attempt env images fp (keys ! (n - 1)) = Inl e
                              \<and> (n < length keys \<longrightarrow> halts e)"
    by blast
  show ?thesis
  proof (cases "fst (loopWith halts env images fp keys le calls)")
    case (Inl le')
    with n(2,4) obtain e where "le' = Some e" "attempt env images fp (keys ! (n - 1)) = Inl e"
      by auto
    with Inl n(3) have "attempt env images fp (keys ! (n - 1)) = Inl e
        \<and> loopWith halts env images fp keys le calls = (Inl (Some e), calls @ callsTo images fp (take n keys))"
      by (simp add: prod_eq_iff)
    with n(1,2) show ?thesis by blast
  next
    case (Inr m)
    with n(4) have "attempt env images fp (keys ! (n - 1)) = Inr m" by simp
    with Inr n(3) have "attempt env images fp (keys ! (n - 1)) = Inr m
        \<and> loopWith halts env images fp keys le calls = (Inr m, calls @ callsTo images fp (take n keys))"
      by (simp add: prod_eq_iff)
    with n(1,2) show ?thesis by blast
  qed
qed

text \<open>Every invocation ends in one of two ways.\<close>

lemma editImage_cases:
  assumes fp: "fp = fullPrompt (engineOrDefault engine) prompt"
  shows "\<exists>n. 0 < n \<and> n \<le> length API_KEYS
          \<and> ((\<exists>e. attempt env images fp (API_KEYS ! (n - 1)) = Inl e
                  \<and> fst (keyLoop env images fp API_KEYS None []) = Inl (Some e)
                  \<and> editImage env images prompt engine
                      = (failureMessage env (engineOrDefault engine) (Some e), callsTo images fp (take n API_KEYS)))
             \<or> (\<exists>m. attempt env images fp (API_KEYS ! (n - 1)) = Inr m
                  \<and> fst (keyLoop env images fp API_KEYS None []) = Inr m
                  \<and> editImage env images prompt engine = (m, callsTo images fp (take n API_KEYS))))"
proof -
  have "API_KEYS \<noteq> []" by (simp add: API_KEYS_def)
  from loopWith_cases [OF this, of env images fp "\<lambda>e. errorClassOf env e = SafetyPolicy" None "[]"]
  show ?thesis
    by (auto simp: editImage_loopWith keyLoop_loopWith fp)
qed

lemma editImage_App_cases:
  assumes fp: "fp = fullPrompt (engineOrDefault engine) prompt"
  shows "\<exists>n. 0 < n \<and> n \<le> length API_KEYS_App
          \<and> ((\<exists>e. attempt env images fp (API_KEYS_App ! (n - 1)) = Inl e
                  \<and> fst (keyLoop_App env images fp API_KEYS_App None []) = Inl (Some e)
                  \<and> editImage_App env images prompt engine
                      = (failureMessage_App env (engineOrDefault engine) (Some e),
                         callsTo images fp (take n API_KEYS_App)))
             \<or> (\<exists>m. attempt env images fp (API_KEYS_App ! (n - 1)) = Inr m
                  \<and> fst (keyLoop_App env images fp API_KEYS_App None []) = Inr m
                  \<and> editImage_App env images prompt engine = (m, callsTo images fp (take n API_KEYS_App))))"
proof -
  have "API_KEYS_App \<noteq> []" by (simp add: API_KEYS_App_def)
  from loopWith_cases [OF this, of env images fp
      "\<lambda>e. errorClassOf env e = SafetyPolicy \<or> errorClassOf env e = InvalidRequest" None "[]"]
  show ?thesis
    by (auto simp: editImage_App_loopWith keyLoop_App_loopWith fp)
qed

lemma inlineImages_map:
  "inlineImages (map (\<lambda>img. InlineData (mimeType img) (data img)) images @ rest) = images @ inlineImages rest"
  by (induction images) (simp_all add: inlineImages_def List.map_filter_simps)

lemma requestParts_shape:
  "length (requestParts images fp) = length images + 1
 \<and> take (length images) (requestParts images fp) = map (\<lambda>img. InlineData (mimeType img) (data img)) images
 \<and> drop (length images) (requestParts images fp) = [TextPart fp]
 \<and> inlineImages (requestParts images fp) = images
 \<and> filter isText (requestParts images fp) = [TextPart fp]"
proof -
  have "inlineImages (requestParts images fp) = images"
    unfolding requestParts_def inlineImages_map by (simp add: inlineImages_def List.map_filter_simps)
  moreover have "filter isText (requestParts images fp) = [TextPart fp]"
    by (simp add: requestParts_def isText_def o_def)
  ultimately show ?thesis
    by (simp add: requestParts_def)
qed

lemma calls_requests: "c \<in> set (callsTo images fp keys) \<Longrightarrow> snd c = buildRequest images fp"
  by (auto simp: callsTo_def)

lemma dataUrl_nonempty: "dataUrl d \<noteq> []"
  by (simp add: dataUrl_def js_def)

lemma inspect_candidate:
  assumes "firstCandidate r = Some c" and "finishReason c \<noteq> Some (js ''SAFETY'')"
    and "contentParts c = Some ps" and "extractParts ps None None = (img, txt)"
    and "truthy img \<or> truthy txt"
  shows "inspect env r = Inr (resultOf env img (successText img txt))"
  using assms by (auto simp: inspect_def resultOf_def)

lemma lastOf_Nil [simp]: "lastOf [] = None"
  by (simp add: lastOf_def)

lemma extractParts_acc:
  "extractParts ps i t =
     (case lastOf (imageParts ps) of None \<Rightarrow> i | Some x \<Rightarrow> Some x,
      case lastOf (textParts ps) of None \<Rightarrow> t | Some x \<Rightarrow> Some x)"
proof (induction ps arbitrary: i t)
  case Nil
  show ?case by (simp add: imageParts_def textParts_def List.map_filter_simps)
next
  case (Cons p ps)
  show ?case
  proof (cases "part_inlineData p")
    case (Some d)
    then show ?thesis
      by (simp add: Cons.IH imageParts_def textParts_def List.map_filter_simps lastOf_def)
  next
    case None
    then show ?thesis
      by (cases "part_text p")
         (simp_all add: Cons.IH imageParts_def textParts_def List.map_filter_simps lastOf_def truthy_def)
  qed
qed

lemma successText_cases: "successText img txt = txt \<or> successText img txt = None"
  by (simp add: successText_def split: option.splits)

lemma last_requestParts: "last (concat (req_contents (buildRequest images fp))) = TextPart fp"
  by (simp add: buildRequest_def requestParts_def)

subsection \<open>Thrown values of any kind\<close>

lemma keyLoop_any_loopWith:
  "keyLoop_any env service images fp keys le calls =
   loopWith_any (\<lambda>s. errorClassOf env s = SafetyPolicy) env service images fp keys le calls"
  by (induction keys arbitrary: le calls)
     (simp_all add: errorClassOf_def classify_Safety_iff Let_def split: sum.splits option.splits)

lemma keyLoop_App_any_loopWith:
  "keyLoop_App_any env service images fp keys le calls =
   loopWith_any (\<lambda>s. errorClassOf env s = SafetyPolicy \<or> errorClassOf env s = InvalidRequest)
     env service images fp keys le calls"
  by (induction keys arbitrary: le calls)
     (auto simp add: errorClassOf_def classify_Safety_iff classify_Invalid_iff Let_def
        split: sum.splits option.splits)








text \<open>The two models agree on the service of an environment.\<close>

lemma attempt_any_serviceOf:
  "attempt_any env (serviceOf env) images fp k =
     (case attempt env images fp k of Inl e \<Rightarrow> Inl (errorObject e) | Inr m \<Rightarrow> Inr m)"
  by (simp add: attempt_any_def attempt_def serviceOf_def split: sum.splits)

lemma loopWith_any_serviceOf:
  "loopWith_any halts env (serviceOf env) images fp keys (map_option errorObject le) calls =
     (case loopWith halts env images fp keys le calls of
        (Inl le', c) \<Rightarrow> (Leaves (map_option errorObject le'), c)
      | (Inr m, c) \<Rightarrow> (Returns m, c))"
proof (induction keys arbitrary: le calls)
  case Nil
  show ?case by simp
next
  case (Cons k keys)
  show ?case
  proof (cases "attempt env images fp k")
    case (Inr m)
    then show ?thesis by (simp add: attempt_any_serviceOf)
  next
    case (Inl e)
    show ?thesis
    proof (cases "halts e")
      case True
      with Inl show ?thesis by (simp add: attempt_any_serviceOf errorObject_def)
    next
      case False
      from Cons.IH [of "Some e" "calls @ [(k, buildRequest images fp)]"] Inl False
      show ?thesis by (simp add: attempt_any_serviceOf errorObject_def)
    qed
  qed
qed

lemma lastErrString_any_errorObject:
  "lastErrString_any env (map_option errorObject le) = Some (lastErrString env le)"
  by (cases le) (simp_all add: lastErrString_any_def lastErrString_def errorObject_def)

lemma editImage_any_serviceOf:
  "editImage_any env (serviceOf env) images prompt engine =
     (Resolves (fst (editImage env images prompt engine)), snd (editImage env images prompt engine))"
proof -
  have "keyLoop_any env (serviceOf env) images (fullPrompt (engineOrDefault engine) prompt) API_KEYS
          (map_option errorObject None) [] =
        (case keyLoop env images (fullPrompt (engineOrDefault engine) prompt) API_KEYS None [] of
           (Inl le', c) \<Rightarrow> (Leaves (map_option errorObject le'), c)
         | (Inr m, c) \<Rightarrow> (Returns m, c))"
    unfolding keyLoop_any_loopWith keyLoop_loopWith by (rule loopWith_any_serviceOf)
  then show ?thesis
    by (auto simp: editImage_any_def editImage_def lastErrString_any_errorObject failureMessage_def
          split: prod.splits sum.splits)
qed

lemma editImage_App_any_serviceOf:
  "editImage_App_any env (serviceOf env) images prompt engine =
     (Resolves (fst (editImage_App env images prompt engine)), snd (editImage_App env images prompt engine))"
proof -
  have "keyLoop_App_any env (serviceOf env) images (fullPrompt (engineOrDefault engine) prompt) API_KEYS_App
          (map_option errorObject None) [] =
        (case keyLoop_App env images (fullPrompt (engineOrDefault engine) prompt) API_KEYS_App None [] of
           (Inl le', c) \<Rightarrow> (Leaves (map_option errorObject le'), c)
         | (Inr m, c) \<Rightarrow> (Returns m, c))"
    unfolding keyLoop_App_any_loopWith keyLoop_App_loopWith by (rule loopWith_any_serviceOf)
  then show ?thesis
    by (auto simp: editImage_App_any_def editImage_App_def lastErrString_any_errorObject failureMessage_App_def
          split: prod.splits sum.splits)
qed





text \<open>The definitions to unfold when a concrete run is evaluated.\<close>

lemmas run_simps = editImage_def editImage_App_def API_KEYS_def API_KEYS_App_def attempt_def
  scripted_def js_def engineOrDefault_def badRequest_def lowerASCII_def js_includes_def sublist_code
  prefix_code inspect_def answer_def firstCandidate_def contentParts_def imagePart_def textPart_def
  truthy_def successText_def resultOf_def callsTo_def dataUrl_def interpolate_def png_def newError_def
  errorClassOf_def classify_def classify_service_def indications_def failsIn_def blocked_def
  failureMessage_def failureMessage_App_def lastErrString_def

section \<open>The claims\<close>

subsection \<open>C1: errors that end the loop\<close>

text \<open>
  C1. Let a credential be reached because every credential before it failed with an
  error that is retried, and let its own attempt fail with the error \<open>error\<close>. In the
  revision in src/App.tsx, if \<open>error\<close> is a safety/policy error or a client error (its
  lower-cased text contains 400 or invalid argument), the loop ends there: the requests
  sent are those to the credentials up to this one, none to a later one, and the result
  is the failure message of \<open>error\<close>. In src/services/geminiService.ts the same holds for a
  safety/policy error only: after a client error the next credential, if there is one,
  is contacted as well.
\<close>

theorem nonretryable_error_stops_loop:
  assumes fp: "fp = fullPrompt (engineOrDefault engine) prompt"
  shows
  "(API_KEYS_App = tried @ apiKey # untried
      \<and> (\<forall>k\<in>set tried. failsIn env [TransientUnavailable, EmptyResponse, Unclassified] (attempt env images fp k))
      \<and> attempt env images fp apiKey = Inl error
      \<and> (errorClassOf env error = SafetyPolicy \<or> errorClassOf env error = InvalidRequest)
    \<longrightarrow> editImage_App env images prompt engine =
          (failureMessage_App env (engineOrDefault engine) (Some error), callsTo images fp (tried @ [apiKey])))
 \<and> (API_KEYS = tried @ apiKey # untried
      \<and> (\<forall>k\<in>set tried. failsIn env [InvalidRequest, TransientUnavailable, EmptyResponse, Unclassified]
            (attempt env images fp k))
      \<and> attempt env images fp apiKey = Inl error
      \<and> errorClassOf env error = SafetyPolicy
    \<longrightarrow> editImage env images prompt engine =
          (failureMessage env (engineOrDefault engine) (Some error), callsTo images fp (tried @ [apiKey])))
 \<and> (API_KEYS = tried @ apiKey # nextKey # untried
      \<and> (\<forall>k\<in>set tried. failsIn env [InvalidRequest, TransientUnavailable, EmptyResponse, Unclassified]
            (attempt env images fp k))
      \<and> attempt env images fp apiKey = Inl error
      \<and> errorClassOf env error = InvalidRequest
    \<longrightarrow> prefix (callsTo images fp (tried @ [apiKey, nextKey])) (snd (editImage env images prompt engine)))"
proof (intro conjI impI)
  assume h: "API_KEYS_App = tried @ apiKey # untried
      \<and> (\<forall>k\<in>set tried. failsIn env [TransientUnavailable, EmptyResponse, Unclassified] (attempt env images fp k))
      \<and> attempt env images fp apiKey = Inl error
      \<and> (errorClassOf env error = SafetyPolicy \<or> errorClassOf env error = InvalidRequest)"
  then have p: "\<forall>k\<in>set tried. \<exists>e. attempt env images fp k = Inl e
           \<and> \<not> (errorClassOf env e = SafetyPolicy \<or> errorClassOf env e = InvalidRequest)"
    using passes_App by blast
  have "loopWith (\<lambda>e. errorClassOf env e = SafetyPolicy \<or> errorClassOf env e = InvalidRequest)
          env images fp (tried @ apiKey # untried) None []
        = (Inl (Some error), [] @ callsTo images fp (tried @ [apiKey]))"
    using p h by (intro loopWith_halts_at) simp_all
  with h show "editImage_App env images prompt engine =
          (failureMessage_App env (engineOrDefault engine) (Some error), callsTo images fp (tried @ [apiKey]))"
    by (simp add: editImage_App_loopWith fp)
next
  assume h: "API_KEYS = tried @ apiKey # untried
      \<and> (\<forall>k\<in>set tried. failsIn env [InvalidRequest, TransientUnavailable, EmptyResponse, Unclassified]
            (attempt env images fp k))
      \<and> attempt env images fp apiKey = Inl error
      \<and> errorClassOf env error = SafetyPolicy"
  then have p: "\<forall>k\<in>set tried. \<exists>e. attempt env images fp k = Inl e \<and> \<not> errorClassOf env e = SafetyPolicy"
    using passes_service by blast
  have "loopWith (\<lambda>e. errorClassOf env e = SafetyPolicy) env images fp (tried @ apiKey # untried) None []
        = (Inl (Some error), [] @ callsTo images fp (tried @ [apiKey]))"
    using p h by (intro loopWith_halts_at) simp_all
  with h show "editImage env images prompt engine =
          (failureMessage env (engineOrDefault engine) (Some error), callsTo images fp (tried @ [apiKey]))"
    by (simp add: editImage_loopWith fp)
next
  assume h: "API_KEYS = tried @ apiKey # nextKey # untried
      \<and> (\<forall>k\<in>set tried. failsIn env [InvalidRequest, TransientUnavailable, EmptyResponse, Unclassified]
            (attempt env images fp k))
      \<and> attempt env images fp apiKey = Inl error
      \<and> errorClassOf env error = InvalidRequest"
  let ?halts = "\<lambda>e. errorClassOf env e = SafetyPolicy"
  from h have "\<forall>k\<in>set tried. \<exists>e. attempt env images fp k = Inl e \<and> \<not> ?halts e"
    using passes_service by blast
  with h have p: "\<forall>k\<in>set (tried @ [apiKey]). \<exists>e. attempt env images fp k = Inl e \<and> \<not> ?halts e"
    by auto
  from loopWith_passes [OF p, of "nextKey # untried" None "[]"]
  obtain le' where le': "loopWith ?halts env images fp ((tried @ [apiKey]) @ nextKey # untried) None [] =
      loopWith ?halts env images fp (nextKey # untried) le' ([] @ callsTo images fp (tried @ [apiKey]))"
    by blast
  from loopWith_result [of "nextKey # untried" ?halts env images fp le' "[] @ callsTo images fp (tried @ [apiKey])"]
  obtain n where n: "0 < n"
     "snd (loopWith ?halts env images fp (nextKey # untried) le' ([] @ callsTo images fp (tried @ [apiKey])))
       = ([] @ callsTo images fp (tried @ [apiKey])) @ callsTo images fp (take n (nextKey # untried))"
    by auto
  from n(1) obtain n' where "n = Suc n'" by (cases n) auto
  with n(2) le' h
  have "snd (loopWith ?halts env images fp API_KEYS None []) =
        callsTo images fp (tried @ [apiKey, nextKey]) @ callsTo images fp (take n' untried)"
    by (simp add: callsTo_append callsTo_Cons)
  moreover have "snd (editImage env images prompt engine) = snd (loopWith ?halts env images fp API_KEYS None [])"
    by (simp add: editImage_loopWith fp split: prod.splits sum.splits)
  ultimately show "prefix (callsTo images fp (tried @ [apiKey, nextKey])) (snd (editImage env images prompt engine))"
    by simp
qed

text \<open>
  As the claim is worded it fails on src/services/geminiService.ts: the first credential
  gets a client error, the second one is contacted all the same, and its image is the
  result.
\<close>

theorem client_error_goes_on_counterexample:
  "attempt envRecover [photo] (fullPrompt (js ''HTL-1'') (js ''hazlo azul'')) (API_KEYS ! 0) = Inl badRequest
 \<and> errorClassOf envRecover badRequest = InvalidRequest
 \<and> editImage envRecover [photo] (js ''hazlo azul'') None =
     (resultOf envRecover (Some (dataUrl png)) None,
      callsTo [photo] (fullPrompt (js ''HTL-1'') (js ''hazlo azul'')) [API_KEYS ! 0, API_KEYS ! 1])"
  by (simp add: run_simps envRecover_def envBlocked_def)

text \<open>
  The three parts of the theorem at work: the revision in src/App.tsx stops at the
  client error of its second credential; the service stops at the block reason that its
  second credential receives; the service goes on after the client error of its first.
\<close>

theorem nonretryable_error_stops_loop_witness:
  "editImage_App envRecover [photo] (js ''hazlo azul'') None =
     (failureMessage_App envRecover (js ''HTL-1'') (Some badRequest),
      callsTo [photo] (fullPrompt (js ''HTL-1'') (js ''hazlo azul'')) [js ''...C_n4'', js ''...TQvQ''])
 \<and> editImage envBlocked [photo] (js ''hazlo azul'') None =
     (failureMessage envBlocked (js ''HTL-1'') (Some (newError (js ''Blocked by safety: PROHIBITED_CONTENT''))),
      callsTo [photo] (fullPrompt (js ''HTL-1'') (js ''hazlo azul'')) [js ''...TQvQ'', js ''...-VSE''])
 \<and> prefix (callsTo [photo] (fullPrompt (js ''HTL-1'') (js ''hazlo azul'')) [js ''...TQvQ'', js ''...-VSE''])
      (snd (editImage envRecover [photo] (js ''hazlo azul'') None))"
proof -
  let ?fp = "fullPrompt (js ''HTL-1'') (js ''hazlo azul'')"
  have fp: "?fp = fullPrompt (engineOrDefault None) (js ''hazlo azul'')"
    by (simp add: engineOrDefault_def)
  have a: "API_KEYS_App = [js ''...C_n4''] @ js ''...TQvQ'' # [js ''...-VSE'', js ''...svms'']
      \<and> (\<forall>k\<in>set [js ''...C_n4'']. failsIn envRecover [TransientUnavailable, EmptyResponse, Unclassified]
             (attempt envRecover [photo] ?fp k))
      \<and> attempt envRecover [photo] ?fp (js ''...TQvQ'') = Inl badRequest
      \<and> (errorClassOf envRecover badRequest = SafetyPolicy \<or> errorClassOf envRecover badRequest = InvalidRequest)"
    by (simp add: run_simps envRecover_def envBlocked_def)
  have b: "API_KEYS = [js ''...TQvQ''] @ js ''...-VSE'' # [js ''...svms'']
      \<and> (\<forall>k\<in>set [js ''...TQvQ'']. failsIn envBlocked [InvalidRequest, TransientUnavailable, EmptyResponse, Unclassified]
            (attempt envBlocked [photo] ?fp k))
      \<and> attempt envBlocked [photo] ?fp (js ''...-VSE'') = Inl (newError (js ''Blocked by safety: PROHIBITED_CONTENT''))
      \<and> errorClassOf envBlocked (newError (js ''Blocked by safety: PROHIBITED_CONTENT'')) = SafetyPolicy"
    by (simp add: run_simps envRecover_def envBlocked_def)
  have c: "API_KEYS = [] @ js ''...TQvQ'' # js ''...-VSE'' # [js ''...svms'']
      \<and> (\<forall>k\<in>set []. failsIn envRecover [InvalidRequest, TransientUnavailable, EmptyResponse, Unclassified]
            (attempt envRecover [photo] ?fp k))
      \<and> attempt envRecover [photo] ?fp (js ''...TQvQ'') = Inl badRequest
      \<and> errorClassOf envRecover badRequest = InvalidRequest"
    by (simp add: run_simps envRecover_def envBlocked_def)
  note t = nonretryable_error_stops_loop [OF fp]
  from t [where tried="[js ''...C_n4'']" and apiKey="js ''...TQvQ''" and untried="[js ''...-VSE'', js ''...svms'']"
            and env=envRecover and images="[photo]" and error=badRequest]
    a
  have 1: "editImage_App envRecover [photo] (js ''hazlo azul'') None =
     (failureMessage_App envRecover (js ''HTL-1'') (Some badRequest),
      callsTo [photo] ?fp [js ''...C_n4'', js ''...TQvQ''])"
    by (simp add: engineOrDefault_def)
  from t [where tried="[js ''...TQvQ'']" and apiKey="js ''...-VSE''" and untried="[js ''...svms'']"
            and env=envBlocked and images="[photo]"
            and error="newError (js ''Blocked by safety: PROHIBITED_CONTENT'')"] b
  have 2: "editImage envBlocked [photo] (js ''hazlo azul'') None =
     (failureMessage envBlocked (js ''HTL-1'') (Some (newError (js ''Blocked by safety: PROHIBITED_CONTENT''))),
      callsTo [photo] ?fp [js ''...TQvQ'', js ''...-VSE''])"
    by (simp add: engineOrDefault_def)
  from t [where tried="[]" and apiKey="js ''...TQvQ''" and nextKey="js ''...-VSE''"
            and untried="[js ''...svms'']" and env=envRecover and images="[photo]" and error=badRequest] c
  have 3: "prefix (callsTo [photo] ?fp [js ''...TQvQ'', js ''...-VSE''])
      (snd (editImage envRecover [photo] (js ''hazlo azul'') None))"
    by simp
  from 1 2 3 show ?thesis by simp
qed

subsection \<open>C2: the order of the classes\<close>

text \<open>
  C2. The text of the failure message is a function of the lower-cased rendering of the
  last error (the fixed text unknown error when there is none) and of the engine name.
  In the revision in src/App.tsx the classes are checked in the order safety/policy,
  invalid request (client error), transient unavailable (network, rate limit, server),
  empty response, and the first class with an indication in the text selects the message;
  without any indication the message is the generic one. In
  src/services/geminiService.ts there is no invalid-request class and no message for
  it: the order is safety/policy, transient unavailable, empty response, generic.
\<close>

theorem classification_order:
  "(case classify (lastErrString env lastError) of
      SafetyPolicy \<Rightarrow> msg_text (failureMessage_App env engine lastError) = Some safetyMessage
    | InvalidRequest \<Rightarrow> msg_text (failureMessage_App env engine lastError) = Some requestMessage_App
    | TransientUnavailable \<Rightarrow> msg_text (failureMessage_App env engine lastError) = Some cloudMessage_App
    | EmptyResponse \<Rightarrow> msg_text (failureMessage_App env engine lastError) = Some (engineMessage engine)
    | Unclassified \<Rightarrow> msg_text (failureMessage_App env engine lastError) = Some (criticalMessage engine))
 \<and> (case classify_service (lastErrString env lastError) of
      SafetyPolicy \<Rightarrow> msg_text (failureMessage env engine lastError) = Some safetyMessage
    | InvalidRequest \<Rightarrow> False
    | TransientUnavailable \<Rightarrow> msg_text (failureMessage env engine lastError) = Some cloudMessage
    | EmptyResponse \<Rightarrow> msg_text (failureMessage env engine lastError) = Some (engineMessage engine)
    | Unclassified \<Rightarrow> msg_text (failureMessage env engine lastError) = Some (criticalMessage engine))"
proof
  show "case classify (lastErrString env lastError) of
      SafetyPolicy \<Rightarrow> msg_text (failureMessage_App env engine lastError) = Some safetyMessage
    | InvalidRequest \<Rightarrow> msg_text (failureMessage_App env engine lastError) = Some requestMessage_App
    | TransientUnavailable \<Rightarrow> msg_text (failureMessage_App env engine lastError) = Some cloudMessage_App
    | EmptyResponse \<Rightarrow> msg_text (failureMessage_App env engine lastError) = Some (engineMessage engine)
    | Unclassified \<Rightarrow> msg_text (failureMessage_App env engine lastError) = Some (criticalMessage engine)"
    by (simp add: failureMessage_App_def userMessage_App_classify split: errorClass.splits)
  show "case classify_service (lastErrString env lastError) of
      SafetyPolicy \<Rightarrow> msg_text (failureMessage env engine lastError) = Some safetyMessage
    | InvalidRequest \<Rightarrow> False
    | TransientUnavailable \<Rightarrow> msg_text (failureMessage env engine lastError) = Some cloudMessage
    | EmptyResponse \<Rightarrow> msg_text (failureMessage env engine lastError) = Some (engineMessage engine)
    | Unclassified \<Rightarrow> msg_text (failureMessage env engine lastError) = Some (criticalMessage engine)"
    by (simp add: failureMessage_def userMessage_classify_service service_never_Invalid split: errorClass.splits)
qed

text \<open>
  As the claim is worded it fails on src/services/geminiService.ts: an error whose first
  class in the claim's order is invalid request gets the generic message there.
\<close>

theorem no_request_class_counterexample:
  "classify (lastErrString envDown (Some badRequest)) = InvalidRequest
 \<and> msg_text (failureMessage envDown (js ''HTL-1'') (Some badRequest)) = Some (criticalMessage (js ''HTL-1''))"
  by (simp add: run_simps envDown_def userMessage_def)

text \<open>The same client error in the two revisions.\<close>

theorem classification_order_witness:
  "msg_text (failureMessage_App envDown (js ''HTL-1'') (Some badRequest)) = Some requestMessage_App
 \<and> msg_text (failureMessage envDown (js ''HTL-1'') (Some badRequest)) = Some (criticalMessage (js ''HTL-1''))"
proof -
  have a: "classify (lastErrString envDown (Some badRequest)) = InvalidRequest"
    by (simp add: run_simps envDown_def)
  have b: "classify_service (lastErrString envDown (Some badRequest)) = Unclassified"
    by (simp add: run_simps envDown_def)
  from classification_order [where env = envDown and lastError = "Some badRequest" and engine = "js ''HTL-1''"] a b
  show ?thesis by simp
qed

subsection \<open>C3: a first success ends the invocation\<close>

text \<open>
  C3. If the service answers the first credential (index 0 of the pool) with a response
  from which the inspection builds a success message, then \<^verbatim>\<open>editImage\<close> returns that
  message, it carries an image or a text, and the one request to the first credential
  is the only request sent. This holds for both revisions.
\<close>

theorem first_success_short_circuits:
  assumes fp: "fp = fullPrompt (engineOrDefault engine) prompt"
  shows
  "(generateContent env (API_KEYS ! 0) (buildRequest images fp) = Inr r \<and> inspect env r = Inr message
    \<longrightarrow> editImage env images prompt engine = (message, [(API_KEYS ! 0, buildRequest images fp)])
        \<and> (truthy (msg_image message) \<or> truthy (msg_text message)))
 \<and> (generateContent env (API_KEYS_App ! 0) (buildRequest images fp) = Inr r \<and> inspect env r = Inr message
    \<longrightarrow> editImage_App env images prompt engine = (message, [(API_KEYS_App ! 0, buildRequest images fp)])
        \<and> (truthy (msg_image message) \<or> truthy (msg_text message)))"
proof (intro conjI impI)
  {
    assume h: "generateContent env (API_KEYS ! 0) (buildRequest images fp) = Inr r \<and> inspect env r = Inr message"
    then have a: "attempt env images fp (API_KEYS ! 0) = Inr message"
      by (simp add: attempt_def)
    have k: "API_KEYS = [] @ (API_KEYS ! 0) # tl API_KEYS"
      by (simp add: API_KEYS_def)
    have "loopWith (\<lambda>e. errorClassOf env e = SafetyPolicy) env images fp ([] @ (API_KEYS ! 0) # tl API_KEYS) None []
          = (Inr message, [] @ callsTo images fp ([] @ [API_KEYS ! 0]))"
      by (rule loopWith_succeeds_at) (simp_all add: a)
    with k show "editImage env images prompt engine = (message, [(API_KEYS ! 0, buildRequest images fp)])"
      by (simp add: editImage_loopWith callsTo_Cons fp)
    from h inspect_Inr show "truthy (msg_image message) \<or> truthy (msg_text message)"
      by blast
  }
  {
    assume h: "generateContent env (API_KEYS_App ! 0) (buildRequest images fp) = Inr r \<and> inspect env r = Inr message"
    then have a: "attempt env images fp (API_KEYS_App ! 0) = Inr message"
      by (simp add: attempt_def)
    have k: "API_KEYS_App = [] @ (API_KEYS_App ! 0) # tl API_KEYS_App"
      by (simp add: API_KEYS_App_def)
    have "loopWith (\<lambda>e. errorClassOf env e = SafetyPolicy \<or> errorClassOf env e = InvalidRequest) env images fp
             ([] @ (API_KEYS_App ! 0) # tl API_KEYS_App) None []
          = (Inr message, [] @ callsTo images fp ([] @ [API_KEYS_App ! 0]))"
      by (rule loopWith_succeeds_at) (simp_all add: a)
    with k show "editImage_App env images prompt engine = (message, [(API_KEYS_App ! 0, buildRequest images fp)])"
      by (simp add: editImage_App_loopWith callsTo_Cons fp)
    from h inspect_Inr show "truthy (msg_image message) \<or> truthy (msg_text message)"
      by blast
  }
qed

text \<open>
  In \<open>envFirst\<close> the first credential of the service is answered with an image and the
  first credential of the revision in src/App.tsx with a text; each invocation sends
  one request.
\<close>

theorem first_success_short_circuits_witness:
  "editImage envFirst [photo] (js ''hazlo azul'') None =
     (resultOf envFirst (Some (dataUrl png)) None,
      [(API_KEYS ! 0, buildRequest [photo] (fullPrompt (js ''HTL-1'') (js ''hazlo azul'')))])
 \<and> editImage_App envFirst [photo] (js ''hazlo azul'') None =
     (resultOf envFirst None (Some (js ''Listo'')),
      [(API_KEYS_App ! 0, buildRequest [photo] (fullPrompt (js ''HTL-1'') (js ''hazlo azul'')))])"
proof -
  let ?fp = "fullPrompt (js ''HTL-1'') (js ''hazlo azul'')"
  have fp: "?fp = fullPrompt (engineOrDefault None) (js ''hazlo azul'')"
    by (simp add: engineOrDefault_def)
  have a: "generateContent envFirst (API_KEYS ! 0) (buildRequest [photo] ?fp) = Inr (answer [imagePart png])
      \<and> inspect envFirst (answer [imagePart png]) = Inr (resultOf envFirst (Some (dataUrl png)) None)"
    by (simp add: run_simps envFirst_def)
  have b: "generateContent envFirst (API_KEYS_App ! 0) (buildRequest [photo] ?fp) = Inr (answer [textPart (js ''Listo'')])
      \<and> inspect envFirst (answer [textPart (js ''Listo'')]) = Inr (resultOf envFirst None (Some (js ''Listo'')))"
    by (simp add: run_simps envFirst_def)
  note t = first_success_short_circuits [OF fp, where env = envFirst and images = "[photo]"]
  from t [where r = "answer [imagePart png]" and message = "resultOf envFirst (Some (dataUrl png)) None"] a
  have 1: "editImage envFirst [photo] (js ''hazlo azul'') None =
     (resultOf envFirst (Some (dataUrl png)) None, [(API_KEYS ! 0, buildRequest [photo] ?fp)])"
    by simp
  from t [where r = "answer [textPart (js ''Listo'')]" and message = "resultOf envFirst None (Some (js ''Listo''))"] b
  have 2: "editImage_App envFirst [photo] (js ''hazlo azul'') None =
     (resultOf envFirst None (Some (js ''Listo'')), [(API_KEYS_App ! 0, buildRequest [photo] ?fp)])"
    by simp
  from 1 2 show ?thesis by simp
qed

subsection \<open>C4: a thrown value without a rendering\<close>



subsection \<open>C5: a pool of transient failures\<close>

text \<open>
  C5. If the attempt of every credential fails with an error of the class transient
  unavailable (network failure, rate limit, server error), the requests sent are those
  to all credentials of the pool, in pool order from index 0, one each (the pool has no
  credential twice), and the result is the error-flagged message with the cloud
  connection text. This holds for both revisions, each with its own wording of that
  text.
\<close>

theorem all_transient_exhausts_pool:
  assumes fp: "fp = fullPrompt (engineOrDefault engine) prompt"
  shows
  "((\<forall>k\<in>set API_KEYS. failsIn env [TransientUnavailable] (attempt env images fp k))
    \<longrightarrow> editImage env images prompt engine =
          (\<lparr>msg_id = randomUUID env, msg_role = Model, msg_text = Some cloudMessage, msg_image = None,
            msg_isError = Some True, msg_groundingLinks = None\<rparr>,
           callsTo images fp API_KEYS))
 \<and> ((\<forall>k\<in>set API_KEYS_App. failsIn env [TransientUnavailable] (attempt env images fp k))
    \<longrightarrow> editImage_App env images prompt engine =
          (\<lparr>msg_id = randomUUID env, msg_role = Model, msg_text = Some cloudMessage_App, msg_image = None,
            msg_isError = Some True, msg_groundingLinks = None\<rparr>,
           callsTo images fp API_KEYS_App))
 \<and> distinct API_KEYS \<and> distinct API_KEYS_App"
proof (intro conjI impI)
  assume h: "\<forall>k\<in>set API_KEYS. failsIn env [TransientUnavailable] (attempt env images fp k)"
  let ?halts = "\<lambda>e. errorClassOf env e = SafetyPolicy"
  have p: "\<forall>k\<in>set API_KEYS. \<exists>e. attempt env images fp k = Inl e \<and> \<not> ?halts e"
    using h by (auto dest!: failsIn_D bspec)
  have ne: "API_KEYS \<noteq> []" by (simp add: API_KEYS_def)
  from loopWith_exhausts [OF p ne, of None "[]"]
  obtain e where e: "attempt env images fp (last API_KEYS) = Inl e"
    "loopWith ?halts env images fp API_KEYS None [] = (Inl (Some e), [] @ callsTo images fp API_KEYS)"
    by blast
  from ne have "last API_KEYS \<in> set API_KEYS" by simp
  with h e(1) have "errorClassOf env e = TransientUnavailable"
    by (auto dest!: failsIn_D bspec)
  then have "userMessage (engineOrDefault engine) (toLowerCase env e) = cloudMessage"
    by (simp add: errorClassOf_def userMessage_Transient)
  with e(2) show "editImage env images prompt engine =
          (\<lparr>msg_id = randomUUID env, msg_role = Model, msg_text = Some cloudMessage, msg_image = None,
            msg_isError = Some True, msg_groundingLinks = None\<rparr>,
           callsTo images fp API_KEYS)"
    by (simp add: editImage_loopWith fp failureMessage_def lastErrString_def)
next
  assume h: "\<forall>k\<in>set API_KEYS_App. failsIn env [TransientUnavailable] (attempt env images fp k)"
  let ?halts = "\<lambda>e. errorClassOf env e = SafetyPolicy \<or> errorClassOf env e = InvalidRequest"
  have p: "\<forall>k\<in>set API_KEYS_App. \<exists>e. attempt env images fp k = Inl e \<and> \<not> ?halts e"
    using h by (auto dest!: failsIn_D bspec)
  have ne: "API_KEYS_App \<noteq> []" by (simp add: API_KEYS_App_def)
  from loopWith_exhausts [OF p ne, of None "[]"]
  obtain e where e: "attempt env images fp (last API_KEYS_App) = Inl e"
    "loopWith ?halts env images fp API_KEYS_App None [] = (Inl (Some e), [] @ callsTo images fp API_KEYS_App)"
    by blast
  from ne have "last API_KEYS_App \<in> set API_KEYS_App" by simp
  with h e(1) have "errorClassOf env e = TransientUnavailable"
    by (auto dest!: failsIn_D bspec)
  then have "userMessage_App (engineOrDefault engine) (toLowerCase env e) = cloudMessage_App"
    by (simp add: errorClassOf_def userMessage_App_classify)
  with e(2) show "editImage_App env images prompt engine =
          (\<lparr>msg_id = randomUUID env, msg_role = Model, msg_text = Some cloudMessage_App, msg_image = None,
            msg_isError = Some True, msg_groundingLinks = None\<rparr>,
           callsTo images fp API_KEYS_App)"
    by (simp add: editImage_App_loopWith fp failureMessage_App_def lastErrString_def)
next
  show "distinct API_KEYS" by (simp add: API_KEYS_def js_def)
  show "distinct API_KEYS_App" by (simp add: API_KEYS_App_def js_def)
qed

text \<open>In \<open>envDown\<close> every attempt fails to connect: three requests, and four.\<close>

theorem all_transient_exhausts_pool_witness:
  "editImage envDown [photo] (js ''hazlo azul'') None =
     (\<lparr>msg_id = js ''id-1'', msg_role = Model, msg_text = Some cloudMessage, msg_image = None,
       msg_isError = Some True, msg_groundingLinks = None\<rparr>,
      callsTo [photo] (fullPrompt (js ''HTL-1'') (js ''hazlo azul'')) [js ''...TQvQ'', js ''...-VSE'', js ''...svms''])
 \<and> editImage_App envDown [photo] (js ''hazlo azul'') None =
     (\<lparr>msg_id = js ''id-1'', msg_role = Model, msg_text = Some cloudMessage_App, msg_image = None,
       msg_isError = Some True, msg_groundingLinks = None\<rparr>,
      callsTo [photo] (fullPrompt (js ''HTL-1'') (js ''hazlo azul''))
        [js ''...C_n4'', js ''...TQvQ'', js ''...-VSE'', js ''...svms''])"
proof -
  let ?fp = "fullPrompt (js ''HTL-1'') (js ''hazlo azul'')"
  have fp: "?fp = fullPrompt (engineOrDefault None) (js ''hazlo azul'')"
    by (simp add: engineOrDefault_def)
  have t: "errorClassOf envDown (js ''TypeError: fetch failed'') = TransientUnavailable"
    by (simp add: run_simps envDown_def)
  have a: "\<forall>k\<in>set API_KEYS. failsIn envDown [TransientUnavailable] (attempt envDown [photo] ?fp k)"
    using t by (simp add: failsIn_def attempt_def envDown_def scripted_def)
  have b: "\<forall>k\<in>set API_KEYS_App. failsIn envDown [TransientUnavailable] (attempt envDown [photo] ?fp k)"
    using t by (simp add: failsIn_def attempt_def envDown_def scripted_def)
  from all_transient_exhausts_pool [OF fp, of envDown "[photo]"] a b
  show ?thesis
    by (simp add: API_KEYS_def API_KEYS_App_def envDown_def scripted_def)
qed

subsection \<open>C6: the success message\<close>

text \<open>
  C6. Let the first candidate of a response not be finished for safety. If its content is
  one image part, the success message has the image and no text. If it is one part with
  a non-empty text, the message has that text and no image. If it is an image part
  followed by a text part, a text of 10 code units is kept with the image, and a text
  of 200 code units is dropped and the image alone is kept; in general a non-empty
  text beside an image is kept exactly when it is shorter than 50 code units.
\<close>

theorem success_result_construction:
  assumes c: "firstCandidate r = Some c" and f: "finishReason c \<noteq> Some (js ''SAFETY'')"
  shows
  "(contentParts c = Some [imagePart d]
     \<longrightarrow> inspect env r = Inr (resultOf env (Some (dataUrl d)) None))
 \<and> (contentParts c = Some [textPart t] \<and> t \<noteq> []
     \<longrightarrow> inspect env r = Inr (resultOf env None (Some t)))
 \<and> (contentParts c = Some [imagePart d, textPart t] \<and> length t = 10
     \<longrightarrow> inspect env r = Inr (resultOf env (Some (dataUrl d)) (Some t)))
 \<and> (contentParts c = Some [imagePart d, textPart t] \<and> length t = 200
     \<longrightarrow> inspect env r = Inr (resultOf env (Some (dataUrl d)) None))
 \<and> (contentParts c = Some [imagePart d, textPart t] \<and> t \<noteq> []
     \<longrightarrow> inspect env r = Inr (resultOf env (Some (dataUrl d)) (if length t < 50 then Some t else None)))"
proof (intro conjI impI)
  assume "contentParts c = Some [imagePart d]"
  then show "inspect env r = Inr (resultOf env (Some (dataUrl d)) None)"
    using inspect_candidate [OF c f, of "[imagePart d]" "Some (dataUrl d)" None env]
    by (simp add: imagePart_def truthy_def dataUrl_nonempty successText_def)
next
  assume "contentParts c = Some [textPart t] \<and> t \<noteq> []"
  then show "inspect env r = Inr (resultOf env None (Some t))"
    using inspect_candidate [OF c f, of "[textPart t]" None "Some t" env]
    by (simp add: textPart_def truthy_def successText_def)
next
  assume a: "contentParts c = Some [imagePart d, textPart t] \<and> length t = 10"
  then have "t \<noteq> []" by auto
  with a show "inspect env r = Inr (resultOf env (Some (dataUrl d)) (Some t))"
    using inspect_candidate [OF c f, of "[imagePart d, textPart t]" "Some (dataUrl d)" "Some t" env]
    by (simp add: imagePart_def textPart_def truthy_def dataUrl_nonempty successText_def)
next
  assume a: "contentParts c = Some [imagePart d, textPart t] \<and> length t = 200"
  then have "t \<noteq> []" by auto
  with a show "inspect env r = Inr (resultOf env (Some (dataUrl d)) None)"
    using inspect_candidate [OF c f, of "[imagePart d, textPart t]" "Some (dataUrl d)" "Some t" env]
    by (simp add: imagePart_def textPart_def truthy_def dataUrl_nonempty successText_def)
next
  assume "contentParts c = Some [imagePart d, textPart t] \<and> t \<noteq> []"
  then show "inspect env r = Inr (resultOf env (Some (dataUrl d)) (if length t < 50 then Some t else None))"
    using inspect_candidate [OF c f, of "[imagePart d, textPart t]" "Some (dataUrl d)" "Some t" env]
    by (auto simp: imagePart_def textPart_def truthy_def dataUrl_nonempty successText_def)
qed

text \<open>Runs with texts of 5, 10, 200, 49 and 50 code units.\<close>

theorem success_result_construction_witness:
  "inspect envDown (answer [imagePart png]) = Inr (resultOf envDown (Some (dataUrl png)) None)
 \<and> inspect envDown (answer [textPart (js ''Listo'')]) = Inr (resultOf envDown None (Some (js ''Listo'')))
 \<and> inspect envDown (answer [imagePart png, textPart (js ''0123456789'')])
     = Inr (resultOf envDown (Some (dataUrl png)) (Some (js ''0123456789'')))
 \<and> inspect envDown (answer [imagePart png, textPart (replicate 200 0x61)])
     = Inr (resultOf envDown (Some (dataUrl png)) None)
 \<and> inspect envDown (answer [imagePart png, textPart (replicate 49 0x61)])
     = Inr (resultOf envDown (Some (dataUrl png)) (Some (replicate 49 0x61)))
 \<and> inspect envDown (answer [imagePart png, textPart (replicate 50 0x61)])
     = Inr (resultOf envDown (Some (dataUrl png)) None)"
proof -
  have c: "\<And>ps. firstCandidate (answer ps) = Some (stop ps)"
    by (simp add: firstCandidate_def answer_def stop_def)
  have f: "\<And>ps. finishReason (stop ps) \<noteq> Some (js ''SAFETY'')"
    by (simp add: stop_def js_def)
  have p: "\<And>ps. contentParts (stop ps) = Some ps"
    by (simp add: contentParts_def stop_def)
  note t = success_result_construction [OF c f, where env = envDown]
  from t [of "[imagePart png]" png] p
  have 1: "inspect envDown (answer [imagePart png]) = Inr (resultOf envDown (Some (dataUrl png)) None)"
    by simp
  from t [of "[textPart (js ''Listo'')]" _ "js ''Listo''"] p
  have 2: "inspect envDown (answer [textPart (js ''Listo'')]) = Inr (resultOf envDown None (Some (js ''Listo'')))"
    by (simp add: js_def)
  from t [of "[imagePart png, textPart (js ''0123456789'')]" png "js ''0123456789''"] p
  have 3: "inspect envDown (answer [imagePart png, textPart (js ''0123456789'')])
     = Inr (resultOf envDown (Some (dataUrl png)) (Some (js ''0123456789'')))"
    by (simp add: js_def)
  from t [of "[imagePart png, textPart (replicate 200 0x61)]" png "replicate 200 0x61"] p
  have 4: "inspect envDown (answer [imagePart png, textPart (replicate 200 0x61)])
     = Inr (resultOf envDown (Some (dataUrl png)) None)"
    by simp
  from t [of "[imagePart png, textPart (replicate 49 0x61)]" png "replicate 49 0x61"] p
  have 5: "inspect envDown (answer [imagePart png, textPart (replicate 49 0x61)])
     = Inr (resultOf envDown (Some (dataUrl png)) (Some (replicate 49 0x61)))"
    by simp
  from t [of "[imagePart png, textPart (replicate 50 0x61)]" png "replicate 50 0x61"] p
  have 6: "inspect envDown (answer [imagePart png, textPart (replicate 50 0x61)])
     = Inr (resultOf envDown (Some (dataUrl png)) None)"
    by simp
  from 1 2 3 4 5 6 show ?thesis by simp
qed

subsection \<open>C7: the outbound parts\<close>

text \<open>
  C7. Every request that \<^verbatim>\<open>editImage\<close> sends has one content whose parts are, for N
  attachments, N inline image parts carrying the mime type and data of the attachments
  in their order, followed by one text part with the composed prompt, and nothing
  else: reading the attachments back from the parts gives the input list, and the only
  text part is the prompt. At least one request is sent. This holds for both revisions.
\<close>

theorem request_parts_round_trip:
  assumes fp: "fp = fullPrompt (engineOrDefault engine) prompt"
  shows
  "snd (editImage env images prompt engine) \<noteq> []
 \<and> (\<forall>c\<in>set (snd (editImage env images prompt engine)).
       \<exists>ps. req_contents (snd c) = [ps]
          \<and> length ps = length images + 1
          \<and> take (length images) ps = map (\<lambda>img. InlineData (mimeType img) (data img)) images
          \<and> drop (length images) ps = [TextPart fp]
          \<and> inlineImages ps = images
          \<and> filter isText ps = [TextPart fp])
 \<and> snd (editImage_App env images prompt engine) \<noteq> []
 \<and> (\<forall>c\<in>set (snd (editImage_App env images prompt engine)).
       \<exists>ps. req_contents (snd c) = [ps]
          \<and> length ps = length images + 1
          \<and> take (length images) ps = map (\<lambda>img. InlineData (mimeType img) (data img)) images
          \<and> drop (length images) ps = [TextPart fp]
          \<and> inlineImages ps = images
          \<and> filter isText ps = [TextPart fp])"
proof -
  have r: "\<And>c keys. c \<in> set (callsTo images fp keys) \<Longrightarrow>
       \<exists>ps. req_contents (snd c) = [ps]
          \<and> length ps = length images + 1
          \<and> take (length images) ps = map (\<lambda>img. InlineData (mimeType img) (data img)) images
          \<and> drop (length images) ps = [TextPart fp]
          \<and> inlineImages ps = images
          \<and> filter isText ps = [TextPart fp]"
    using requestParts_shape [of images fp] by (simp add: calls_requests buildRequest_def)
  from editImage_cases [OF fp, of env images]
  obtain n where n: "0 < n" "n \<le> length API_KEYS"
    "snd (editImage env images prompt engine) = callsTo images fp (take n API_KEYS)"
    by auto
  from editImage_App_cases [OF fp, of env images]
  obtain n' where n': "0 < n'" "n' \<le> length API_KEYS_App"
    "snd (editImage_App env images prompt engine) = callsTo images fp (take n' API_KEYS_App)"
    by auto
  have "snd (editImage env images prompt engine) \<noteq> []"
    using n by (auto simp: callsTo_def)
  moreover have "snd (editImage_App env images prompt engine) \<noteq> []"
    using n' by (auto simp: callsTo_def)
  ultimately show ?thesis
    using r n(3) n'(3) by simp
qed

text \<open>Two attachments, read back from the first request of each revision.\<close>

theorem request_parts_round_trip_witness:
  "snd (editImage envFirst [photo, sketch] (js ''hazlo azul'') None) \<noteq> []
 \<and> inlineImages (concat (req_contents (snd (hd (snd (editImage envFirst [photo, sketch] (js ''hazlo azul'') None))))))
     = [photo, sketch]
 \<and> filter isText (concat (req_contents (snd (hd (snd (editImage envFirst [photo, sketch] (js ''hazlo azul'') None))))))
     = [TextPart (fullPrompt (js ''HTL-1'') (js ''hazlo azul''))]
 \<and> snd (editImage_App envFirst [photo, sketch] (js ''hazlo azul'') None) \<noteq> []
 \<and> inlineImages (concat (req_contents (snd (hd (snd (editImage_App envFirst [photo, sketch] (js ''hazlo azul'') None))))))
     = [photo, sketch]"
proof -
  let ?fp = "fullPrompt (js ''HTL-1'') (js ''hazlo azul'')"
  have fp: "?fp = fullPrompt (engineOrDefault None) (js ''hazlo azul'')"
    by (simp add: engineOrDefault_def)
  note t = request_parts_round_trip [OF fp, of envFirst "[photo, sketch]"]
  from t have ne: "snd (editImage envFirst [photo, sketch] (js ''hazlo azul'') None) \<noteq> []"
    and ne': "snd (editImage_App envFirst [photo, sketch] (js ''hazlo azul'') None) \<noteq> []"
    by blast+
  from ne have "hd (snd (editImage envFirst [photo, sketch] (js ''hazlo azul'') None))
      \<in> set (snd (editImage envFirst [photo, sketch] (js ''hazlo azul'') None))"
    by simp
  with t obtain ps where ps:
    "req_contents (snd (hd (snd (editImage envFirst [photo, sketch] (js ''hazlo azul'') None)))) = [ps]"
    "inlineImages ps = [photo, sketch]" "filter isText ps = [TextPart ?fp]"
    by blast
  from ne' have "hd (snd (editImage_App envFirst [photo, sketch] (js ''hazlo azul'') None))
      \<in> set (snd (editImage_App envFirst [photo, sketch] (js ''hazlo azul'') None))"
    by simp
  with t obtain ps' where ps':
    "req_contents (snd (hd (snd (editImage_App envFirst [photo, sketch] (js ''hazlo azul'') None)))) = [ps']"
    "inlineImages ps' = [photo, sketch]"
    by blast
  from ne ne' ps ps' show ?thesis by simp
qed

subsection \<open>C8: the default instruction\<close>

text \<open>
  C8. The default instruction is supplied by the caller, not by \<^verbatim>\<open>editImage\<close>. When the
  trimmed input of \<^verbatim>\<open>handleSend\<close> is empty, an attachment is present and no request is
  loading, \<^verbatim>\<open>handleSend\<close> calls \<^verbatim>\<open>editImage\<close> with the instruction
  \<^verbatim>\<open>Mejora esta imagen\<close>, and the text part of every request sent ends with it; with a
  non-empty trimmed input it passes that input. \<^verbatim>\<open>editImage\<close> itself composes the text
  part from the prompt it is given, whatever it is, also the empty one.
\<close>

theorem default_instruction_in_caller:
  "(trim input = [] \<and> attachments \<noteq> [] \<and> \<not> isLoading
     \<longrightarrow> handleSend env input attachments isLoading selectedEngine
           = Sent (editImage env attachments (js ''Mejora esta imagen'') (Some selectedEngine))
       \<and> (\<forall>c\<in>set (snd (editImage env attachments (js ''Mejora esta imagen'') (Some selectedEngine))).
            last (concat (req_contents (snd c)))
              = TextPart (js ''[SYSTEM: You are SMAPic. '' @ engineInstruction selectedEngine
                            @ js '' DO NOT CONVERSE. JUST EDIT/GENERATE.] Mejora esta imagen'')))
 \<and> (trim input \<noteq> [] \<and> attachments \<noteq> [] \<and> \<not> isLoading
     \<longrightarrow> handleSend env input attachments isLoading selectedEngine
           = Sent (editImage env attachments (trim input) (Some selectedEngine)))
 \<and> snd (editImage env images prompt engine) \<noteq> []
 \<and> (\<forall>c\<in>set (snd (editImage env images prompt engine)).
       last (concat (req_contents (snd c)))
         = TextPart (js ''[SYSTEM: You are SMAPic. '' @ engineInstruction (engineOrDefault engine)
                       @ js '' DO NOT CONVERSE. JUST EDIT/GENERATE.] '' @ prompt))"
proof -
  have calls: "\<And>images prompt engine c. c \<in> set (snd (editImage env images prompt engine)) \<Longrightarrow>
      last (concat (req_contents (snd c))) = TextPart (fullPrompt (engineOrDefault engine) prompt)"
  proof -
    fix images prompt engine c
    assume c: "c \<in> set (snd (editImage env images prompt engine))"
    from editImage_cases [OF refl, of env images engine prompt]
    obtain n where "snd (editImage env images prompt engine)
        = callsTo images (fullPrompt (engineOrDefault engine) prompt) (take n API_KEYS)"
      by auto
    with c have "snd c = buildRequest images (fullPrompt (engineOrDefault engine) prompt)"
      by (simp add: calls_requests)
    then show "last (concat (req_contents (snd c))) = TextPart (fullPrompt (engineOrDefault engine) prompt)"
      by (simp add: last_requestParts)
  qed
  have 1: "trim input = [] \<and> attachments \<noteq> [] \<and> \<not> isLoading
     \<longrightarrow> handleSend env input attachments isLoading selectedEngine
           = Sent (editImage env attachments (js ''Mejora esta imagen'') (Some selectedEngine))"
    by (simp add: handleSend_def)
  have 2: "\<forall>c\<in>set (snd (editImage env attachments (js ''Mejora esta imagen'') (Some selectedEngine))).
            last (concat (req_contents (snd c)))
              = TextPart (js ''[SYSTEM: You are SMAPic. '' @ engineInstruction selectedEngine
                            @ js '' DO NOT CONVERSE. JUST EDIT/GENERATE.] Mejora esta imagen'')"
    using calls by (simp add: fullPrompt_def engineOrDefault_def js_def)
  have 3: "trim input \<noteq> [] \<and> attachments \<noteq> [] \<and> \<not> isLoading
     \<longrightarrow> handleSend env input attachments isLoading selectedEngine
           = Sent (editImage env attachments (trim input) (Some selectedEngine))"
    by (simp add: handleSend_def)
  have 4: "snd (editImage env images prompt engine) \<noteq> []"
  proof -
    from editImage_cases [OF refl, of env images engine prompt]
    obtain n where "0 < n" "n \<le> length API_KEYS" "snd (editImage env images prompt engine)
        = callsTo images (fullPrompt (engineOrDefault engine) prompt) (take n API_KEYS)"
      by auto
    then show ?thesis by (auto simp: callsTo_def)
  qed
  have 5: "\<forall>c\<in>set (snd (editImage env images prompt engine)).
       last (concat (req_contents (snd c)))
         = TextPart (js ''[SYSTEM: You are SMAPic. '' @ engineInstruction (engineOrDefault engine)
                       @ js '' DO NOT CONVERSE. JUST EDIT/GENERATE.] '' @ prompt)"
    using calls by (simp add: fullPrompt_def)
  from 1 2 3 4 5 show ?thesis by simp
qed

text \<open>
  As the claim is worded it fails: called with a blank prompt, \<^verbatim>\<open>editImage\<close> sends a text
  part that ends after the system prefix and holds no default instruction, neither in
  the words of the specification nor in those of the caller.
\<close>

theorem blank_prompt_counterexample:
  "map (\<lambda>c. last (concat (req_contents (snd c)))) (snd (editImage envFirst [photo] [] (Some (js ''HTL-1''))))
     = [TextPart (js ''[SYSTEM: You are SMAPic. MODE: FAST/BASIC. Prioritize speed. Do not add unnecessary details. DO NOT CONVERSE. JUST EDIT/GENERATE.] '')]
 \<and> \<not> js_includes
       (js ''[SYSTEM: You are SMAPic. MODE: FAST/BASIC. Prioritize speed. Do not add unnecessary details. DO NOT CONVERSE. JUST EDIT/GENERATE.] '')
       (js ''improve this image'')
 \<and> \<not> js_includes
       (js ''[SYSTEM: You are SMAPic. MODE: FAST/BASIC. Prioritize speed. Do not add unnecessary details. DO NOT CONVERSE. JUST EDIT/GENERATE.] '')
       (js ''Mejora esta imagen'')"
  by (simp add: run_simps envFirst_def fullPrompt_def engineInstruction_def buildRequest_def requestParts_def)

text \<open>An input of three spaces, and an input with a word between spaces.\<close>

theorem default_instruction_in_caller_witness:
  "handleSend envFirst (js ''   '') [photo] False (js ''Qwalc-3'')
     = Sent (editImage envFirst [photo] (js ''Mejora esta imagen'') (Some (js ''Qwalc-3'')))
 \<and> last (concat (req_contents (snd (hd (snd (editImage envFirst [photo] (js ''Mejora esta imagen'') (Some (js ''Qwalc-3''))))))))
     = TextPart (js ''[SYSTEM: You are SMAPic. MODE: BALANCED/DETAILED. Enhance lighting and texture. DO NOT CONVERSE. JUST EDIT/GENERATE.] Mejora esta imagen'')
 \<and> handleSend envFirst (js '' azul '') [photo] False (js ''Qwalc-3'')
     = Sent (editImage envFirst [photo] (js ''azul'') (Some (js ''Qwalc-3'')))"
proof -
  have a: "trim (js ''   '') = [] \<and> [photo] \<noteq> [] \<and> \<not> False"
    by (simp add: trim_def isWhiteSpace_def js_def)
  have b: "trim (js '' azul '') = js ''azul''"
    by (simp add: trim_def isWhiteSpace_def js_def)
  then have b': "trim (js '' azul '') \<noteq> [] \<and> [photo] \<noteq> [] \<and> \<not> False"
    by (simp add: js_def)
  note t = default_instruction_in_caller [where env = envFirst and attachments = "[photo]"
      and isLoading = False and selectedEngine = "js ''Qwalc-3''" and images = "[photo]"
      and prompt = "js ''Mejora esta imagen''" and engine = "Some (js ''Qwalc-3'')"]
  from t [where input = "js ''   ''"] a
  have 1: "handleSend envFirst (js ''   '') [photo] False (js ''Qwalc-3'')
     = Sent (editImage envFirst [photo] (js ''Mejora esta imagen'') (Some (js ''Qwalc-3'')))"
    by blast
  from t [where input = "js ''   ''"]
  have ne: "snd (editImage envFirst [photo] (js ''Mejora esta imagen'') (Some (js ''Qwalc-3''))) \<noteq> []"
    by blast
  then have "hd (snd (editImage envFirst [photo] (js ''Mejora esta imagen'') (Some (js ''Qwalc-3''))))
      \<in> set (snd (editImage envFirst [photo] (js ''Mejora esta imagen'') (Some (js ''Qwalc-3''))))"
    by simp
  with t [where input = "js ''   ''"] a
  have "last (concat (req_contents (snd (hd (snd (editImage envFirst [photo] (js ''Mejora esta imagen'') (Some (js ''Qwalc-3''))))))))
     = TextPart (js ''[SYSTEM: You are SMAPic. '' @ engineInstruction (js ''Qwalc-3'')
                            @ js '' DO NOT CONVERSE. JUST EDIT/GENERATE.] Mejora esta imagen'')"
    by blast
  then have 2: "last (concat (req_contents (snd (hd (snd (editImage envFirst [photo] (js ''Mejora esta imagen'') (Some (js ''Qwalc-3''))))))))
     = TextPart (js ''[SYSTEM: You are SMAPic. MODE: BALANCED/DETAILED. Enhance lighting and texture. DO NOT CONVERSE. JUST EDIT/GENERATE.] Mejora esta imagen'')"
    by (simp add: engineInstruction_def js_def)
  from t [where input = "js '' azul ''"] b b'
  have 3: "handleSend envFirst (js '' azul '') [photo] False (js ''Qwalc-3'')
     = Sent (editImage envFirst [photo] (js ''azul'') (Some (js ''Qwalc-3'')))"
    by simp
  from 1 2 3 show ?thesis by simp
qed

subsection \<open>C9: the last part of each kind\<close>

text \<open>
  C9. The extraction loop returns the last image part of the content as the image and
  the last text part as the text (none where there is no part of that kind). The
  success message built from a candidate carries that image, and its text is that last
  text or no text at all.
\<close>

theorem extraction_keeps_last:
  "extractParts ps None None = (lastOf (imageParts ps), lastOf (textParts ps))
 \<and> (firstCandidate r = Some c \<and> contentParts c = Some ps \<and> inspect env r = Inr message
     \<longrightarrow> msg_image message = lastOf (imageParts ps)
       \<and> (msg_text message = lastOf (textParts ps) \<or> msg_text message = None))"
proof (intro conjI impI)
  show e: "extractParts ps None None = (lastOf (imageParts ps), lastOf (textParts ps))"
    by (simp add: extractParts_acc split: option.splits)
  assume h: "firstCandidate r = Some c \<and> contentParts c = Some ps \<and> inspect env r = Inr message"
  then have m: "message = resultOf env (lastOf (imageParts ps))
                   (successText (lastOf (imageParts ps)) (lastOf (textParts ps)))"
    by (auto simp: inspect_def e resultOf_def split: if_splits)
  then show "msg_image message = lastOf (imageParts ps)"
    by (simp add: resultOf_def)
  from m successText_cases [of "lastOf (imageParts ps)" "lastOf (textParts ps)"]
  show "msg_text message = lastOf (textParts ps) \<or> msg_text message = None"
    by (auto simp: resultOf_def)
qed

text \<open>Two texts, two images and an empty text: the later of each kind is kept.\<close>

theorem extraction_keeps_last_witness:
  "extractParts several None None = (Some (dataUrl jpeg), Some (js ''dos''))
 \<and> inspect envDown (answer several) = Inr (resultOf envDown (Some (dataUrl jpeg)) (Some (js ''dos'')))
 \<and> msg_image (resultOf envDown (Some (dataUrl jpeg)) (Some (js ''dos''))) = lastOf (imageParts several)"
proof -
  have i: "imageParts several = [dataUrl png, dataUrl jpeg]"
    by (simp add: imageParts_def several_def List.map_filter_simps imagePart_def textPart_def)
  have t: "textParts several = [js ''uno'', js ''dos'']"
    by (simp add: textParts_def several_def List.map_filter_simps imagePart_def textPart_def truthy_def js_def)
  have r: "inspect envDown (answer several) = Inr (resultOf envDown (Some (dataUrl jpeg)) (Some (js ''dos'')))"
    by (simp add: run_simps several_def jpeg_def)
  have h: "firstCandidate (answer several) = Some (stop several) \<and> contentParts (stop several) = Some several
      \<and> inspect envDown (answer several) = Inr (resultOf envDown (Some (dataUrl jpeg)) (Some (js ''dos'')))"
    using r by (simp add: firstCandidate_def answer_def stop_def contentParts_def)
  note k = extraction_keeps_last [where ps = several and r = "answer several" and c = "stop several"
      and env = envDown and message = "resultOf envDown (Some (dataUrl jpeg)) (Some (js ''dos''))"]
  from k have "extractParts several None None = (lastOf (imageParts several), lastOf (textParts several))"
    by blast
  then have 1: "extractParts several None None = (Some (dataUrl jpeg), Some (js ''dos''))"
    by (simp add: i t lastOf_def)
  from k h have 2: "msg_image (resultOf envDown (Some (dataUrl jpeg)) (Some (js ''dos''))) = lastOf (imageParts several)"
    by blast
  from 1 r 2 show ?thesis by simp
qed

subsection \<open>C10: the shape of the result\<close>

text \<open>
  C10. When the credential loop ends without a success, the message returned is the
  failure message of the last error: error-flagged, with a non-empty text and no image.
  When the loop returns the success message of an attempt, that message is returned: it
  has no error flag and carries an image or a text. This holds for both revisions.
  Beside an image, an empty text is dropped: the text of the success message is unset,
  both in the expression that builds it and for a candidate whose content is an image
  part followed by a part with the empty text.
\<close>

theorem result_shapes:
  assumes fp: "fp = fullPrompt (engineOrDefault engine) prompt"
  shows
  "(case fst (keyLoop env images fp API_KEYS None []) of
      Inl lastError \<Rightarrow>
        fst (editImage env images prompt engine) = failureMessage env (engineOrDefault engine) lastError
        \<and> failureShape (fst (editImage env images prompt engine))
    | Inr message \<Rightarrow>
        fst (editImage env images prompt engine) = message \<and> successShape message)
 \<and> (case fst (keyLoop_App env images fp API_KEYS_App None []) of
      Inl lastError \<Rightarrow>
        fst (editImage_App env images prompt engine) = failureMessage_App env (engineOrDefault engine) lastError
        \<and> failureShape (fst (editImage_App env images prompt engine))
    | Inr message \<Rightarrow>
        fst (editImage_App env images prompt engine) = message \<and> successShape message)
 \<and> successText (Some (dataUrl d)) (Some []) = None
 \<and> (firstCandidate r = Some c \<and> finishReason c \<noteq> Some (js ''SAFETY'')
      \<and> contentParts c = Some [imagePart d, textPart []]
     \<longrightarrow> inspect env r = Inr (resultOf env (Some (dataUrl d)) None))"
proof (intro conjI impI)
  from editImage_cases [OF fp, of env images]
  show "case fst (keyLoop env images fp API_KEYS None []) of
      Inl lastError \<Rightarrow>
        fst (editImage env images prompt engine) = failureMessage env (engineOrDefault engine) lastError
        \<and> failureShape (fst (editImage env images prompt engine))
    | Inr message \<Rightarrow>
        fst (editImage env images prompt engine) = message \<and> successShape message"
    by (auto simp: failureShape_failureMessage dest: attempt_Inr)
  from editImage_App_cases [OF fp, of env images]
  show "case fst (keyLoop_App env images fp API_KEYS_App None []) of
      Inl lastError \<Rightarrow>
        fst (editImage_App env images prompt engine) = failureMessage_App env (engineOrDefault engine) lastError
        \<and> failureShape (fst (editImage_App env images prompt engine))
    | Inr message \<Rightarrow>
        fst (editImage_App env images prompt engine) = message \<and> successShape message"
    by (auto simp: failureShape_failureMessage_App dest: attempt_Inr)
  show "successText (Some (dataUrl d)) (Some []) = None"
    by (simp add: successText_def truthy_def dataUrl_nonempty)
  assume h: "firstCandidate r = Some c \<and> finishReason c \<noteq> Some (js ''SAFETY'')
      \<and> contentParts c = Some [imagePart d, textPart []]"
  then show "inspect env r = Inr (resultOf env (Some (dataUrl d)) None)"
    using inspect_candidate [of r c "[imagePart d, textPart []]" "Some (dataUrl d)" None env]
    by (simp add: imagePart_def textPart_def truthy_def dataUrl_nonempty successText_def)
qed

text \<open>
  On \<open>envRecover\<close> the service ends with the image of its second credential and the
  revision in src/App.tsx with the failure message of the client error.
\<close>

theorem result_shapes_witness:
  "fst (editImage envRecover [photo] (js ''hazlo azul'') None) = resultOf envRecover (Some (dataUrl png)) None
 \<and> successShape (resultOf envRecover (Some (dataUrl png)) None)
 \<and> fst (editImage_App envRecover [photo] (js ''hazlo azul'') None)
     = failureMessage_App envRecover (js ''HTL-1'') (Some badRequest)
 \<and> failureShape (fst (editImage_App envRecover [photo] (js ''hazlo azul'') None))
 \<and> successText (Some (dataUrl png)) (Some []) = None
 \<and> inspect envRecover (answer [imagePart png, textPart []]) = Inr (resultOf envRecover (Some (dataUrl png)) None)"
proof -
  let ?fp = "fullPrompt (js ''HTL-1'') (js ''hazlo azul'')"
  have fp: "?fp = fullPrompt (engineOrDefault None) (js ''hazlo azul'')"
    by (simp add: engineOrDefault_def)
  have a: "fst (keyLoop envRecover [photo] ?fp API_KEYS None []) = Inr (resultOf envRecover (Some (dataUrl png)) None)"
    by (simp add: run_simps envRecover_def)
  have b: "fst (keyLoop_App envRecover [photo] ?fp API_KEYS_App None []) = Inl (Some badRequest)"
    by (simp add: run_simps envRecover_def)
  have c: "firstCandidate (answer [imagePart png, textPart []]) = Some (stop [imagePart png, textPart []])
      \<and> finishReason (stop [imagePart png, textPart []]) \<noteq> Some (js ''SAFETY'')
      \<and> contentParts (stop [imagePart png, textPart []]) = Some [imagePart png, textPart []]"
    by (simp add: firstCandidate_def answer_def stop_def contentParts_def js_def)
  from result_shapes [OF fp, where env = envRecover and images = "[photo]" and d = png
      and r = "answer [imagePart png, textPart []]" and c = "stop [imagePart png, textPart []]"] a b c
  show ?thesis
    by (simp add: engineOrDefault_def failureShape_failureMessage_App)
qed

end
